theory Spec2Isabelle
  imports Complex_Main "HOL-Library.Word"
begin

section \<open>Strings and the JSON values of the AI gateway\<close>

text \<open>
  A JavaScript string is a sequence of 16-bit code units. Literals of the source are
  written with \<open>str\<close>, which maps an ASCII literal to its code units.
\<close>

type_synonym jsstring = "16 word list"

definition str :: "string \<Rightarrow> jsstring" where
  "str = map of_char"

text \<open>
  The code units that the regular-expression class \<^verbatim>\<open>\s\<close> and \<^verbatim>\<open>String.prototype.trim\<close>
  treat as white space (ECMAScript WhiteSpace and LineTerminator): TAB, LF, VT, FF, CR,
  SP, NBSP, U+1680, U+2000..U+200A, U+2028, U+2029, U+202F, U+205F, U+3000 and U+FEFF.
\<close>

definition isWhiteSpace :: "16 word \<Rightarrow> bool" where
  "isWhiteSpace c \<longleftrightarrow>
     c = 0x09 \<or> c = 0x0A \<or> c = 0x0B \<or> c = 0x0C \<or> c = 0x0D \<or> c = 0x20 \<or> c = 0xA0 \<or>
     c = 0x1680 \<or> (0x2000 \<le> c \<and> c \<le> 0x200A) \<or> c = 0x2028 \<or> c = 0x2029 \<or>
     c = 0x202F \<or> c = 0x205F \<or> c = 0x3000 \<or> c = 0xFEFF"

definition trim :: "jsstring \<Rightarrow> jsstring" where
  "trim s = rev (dropWhile isWhiteSpace (rev (dropWhile isWhiteSpace s)))"

text \<open>
  \<^verbatim>\<open>indexOf\<close> and \<^verbatim>\<open>lastIndexOf\<close> for a one-character needle: the first (last) position
  of the character, or \<open>-1\<close> when it does not occur.
\<close>

fun indexOf :: "'a list \<Rightarrow> 'a \<Rightarrow> int" where
  "indexOf [] c = -1"
| "indexOf (x # xs) c =
     (if x = c then 0 else (let r = indexOf xs c in if r = -1 then -1 else r + 1))"

definition lastIndexOf :: "'a list \<Rightarrow> 'a \<Rightarrow> int" where
  "lastIndexOf xs c =
     (let r = indexOf (rev xs) c in if r = -1 then -1 else int (length xs) - 1 - r)"

text \<open>
  \<^verbatim>\<open>substring(a, b)\<close>: both indices are clamped to the string and swapped when \<open>a > b\<close>.
\<close>

definition substring :: "'a list \<Rightarrow> int \<Rightarrow> int \<Rightarrow> 'a list" where
  "substring s a b =
     (let n = int (length s);
          a' = min (max a 0) n;
          b' = min (max b 0) n;
          lo = min a' b';
          hi = max a' b'
      in take (nat (hi - lo)) (drop (nat lo) s))"

subsection \<open>cleanJsonString\<close>

text \<open>
  \<^verbatim>\<open>str.replace(/^```json\s*|```$/g, '')\<close>. The pattern has no \<^verbatim>\<open>m\<close> flag, so \<^verbatim>\<open>^\<close> is the
  start and \<^verbatim>\<open>$\<close> the end of the whole string. The first alternative can match at
  position 0 only and consumes the opening fence with all white space after it; the
  second alternative matches the last three code units of the string when they are three
  backticks that the first match has not consumed.
\<close>

definition fenceJson :: jsstring where
  "fenceJson = str ''```json''"

definition fence :: jsstring where
  "fence = str ''```''"

definition stripClosingFence :: "jsstring \<Rightarrow> jsstring" where
  "stripClosingFence s =
     (if 3 \<le> length s \<and> drop (length s - 3) s = fence then take (length s - 3) s else s)"

definition replaceFences :: "jsstring \<Rightarrow> jsstring" where
  "replaceFences s =
     (if take 7 s = fenceJson
      then stripClosingFence (dropWhile isWhiteSpace (drop 7 s))
      else stripClosingFence s)"

definition lbracket :: "16 word" where "lbracket = 0x5B"
definition rbracket :: "16 word" where "rbracket = 0x5D"
definition lcurly :: "16 word" where "lcurly = 0x7B"
definition rcurly :: "16 word" where "rcurly = 0x7D"

definition cleanJsonString :: "jsstring \<Rightarrow> jsstring" where
  "cleanJsonString s =
     (let cleaned = trim (replaceFences s);
          firstOpen = indexOf cleaned lbracket;
          firstCurly = indexOf cleaned lcurly;
          start = (if firstOpen = -1 then firstCurly
                   else if firstCurly = -1 then firstOpen
                   else min firstOpen firstCurly)
      in if start = -1 then cleaned
         else
           (let lastClose = lastIndexOf cleaned rbracket;
                lastCurly = lastIndexOf cleaned rcurly;
                end = max lastClose lastCurly
            in if end = -1 \<or> end < start then cleaned
               else substring cleaned start (end + 1)))"


subsection \<open>Values produced by JSON.parse\<close>

text \<open>
  A JSON number is an IEEE double: its numeric value when it is finite (the two zeros
  are both \<open>NumFinite 0\<close>), or an infinity, which \<^verbatim>\<open>JSON.parse\<close> yields for a literal beyond
  the double range (\<open>NumInfinity True\<close> is the negative one). Only the test for zero is
  used below.
\<close>

datatype jsnumber = NumFinite real | NumInfinity bool

text \<open>
  An object is the list of its own properties, in insertion order; \<^verbatim>\<open>JSON.parse\<close> yields
  distinct keys. A value that may be \<^verbatim>\<open>undefined\<close> is a \<open>json option\<close>, with \<open>None\<close> for
  \<^verbatim>\<open>undefined\<close>.
\<close>

datatype json =
    JNull
  | JBool bool
  | JNumber jsnumber
  | JString jsstring
  | JArray "json list"
  | JObject "(jsstring \<times> json) list"

datatype jsError =
    TypeError
  | URIError
  | Error jsstring
  | Rejected

text \<open>
  \<^verbatim>\<open>JSON.parse\<close> itself is a built-in of the platform: the operations below take it as the
  parameter \<open>parse\<close>, with \<open>None\<close> for a thrown \<^verbatim>\<open>SyntaxError\<close>.
\<close>

type_synonym jsonParse = "jsstring \<Rightarrow> json option"

text \<open>
  The property read \<^verbatim>\<open>v.k\<close> for the property names the source uses (\<^verbatim>\<open>skills\<close>,
  \<^verbatim>\<open>educationLevel\<close>, \<^verbatim>\<open>projects\<close>, \<^verbatim>\<open>subject\<close>, \<^verbatim>\<open>body\<close>): a \<^verbatim>\<open>TypeError\<close> on \<^verbatim>\<open>null\<close>, the own
  property of an object, and \<^verbatim>\<open>undefined\<close> on every other value, whose prototypes define
  none of these names.
\<close>

fun getProp :: "json \<Rightarrow> jsstring \<Rightarrow> jsError + json option" where
  "getProp JNull k = Inl TypeError"
| "getProp (JObject kvs) k = Inr (map_of kvs k)"
| "getProp v k = Inr None"

text \<open>
  The operator \<^verbatim>\<open>k in item\<close> for the property names the source uses (\<^verbatim>\<open>name\<close>, \<^verbatim>\<open>title\<close>,
  \<^verbatim>\<open>researchInterests\<close>): a \<^verbatim>\<open>TypeError\<close> when the right operand is not an object (null, a
  boolean, a number, a string), false on an array, and the presence of the own property
  on an object.
\<close>

fun inOp :: "jsstring \<Rightarrow> json \<Rightarrow> jsError + bool" where
  "inOp k (JObject kvs) = Inr (k \<in> fst ` set kvs)"
| "inOp k (JArray xs) = Inr False"
| "inOp k v = Inl TypeError"

fun truthy :: "json \<Rightarrow> bool" where
  "truthy JNull = False"
| "truthy (JBool b) = b"
| "truthy (JNumber n) = (n \<noteq> NumFinite 0)"
| "truthy (JString s) = (s \<noteq> [])"
| "truthy (JArray xs) = True"
| "truthy (JObject kvs) = True"

text \<open>\<^verbatim>\<open>v || d\<close> for a possibly undefined \<open>v\<close>.\<close>

definition orElse :: "json option \<Rightarrow> json \<Rightarrow> json" where
  "orElse v d = (case v of None \<Rightarrow> d | Some x \<Rightarrow> if truthy x then x else d)"

section \<open>The data model of types.ts\<close>

datatype Step = Input | Select | Review

text \<open>
  The argument of \<^verbatim>\<open>parseResume\<close> and the record it returns. The three extracted fields
  hold whatever JSON value the response carried: nothing checks them against the
  declared types \<^verbatim>\<open>string[]\<close> and \<^verbatim>\<open>string\<close>.
\<close>

record rawFile =
  name :: jsstring
  mimeType :: jsstring
  data :: jsstring

record ResumeData = rawFile +
  skills :: json
  educationLevel :: json
  projects :: json

text \<open>
  \<^verbatim>\<open>Omit<Email, 'sent'>\<close>, the result of \<^verbatim>\<open>generateEmailForContact\<close>, with the values its
  fields can hold at run time: \<^verbatim>\<open>contact.email!\<close>, \<^verbatim>\<open>emailContent.subject\<close> and
  \<^verbatim>\<open>emailContent.body\<close> are any JSON value or \<^verbatim>\<open>undefined\<close>, since the non-null assertion and
  the declared types have no effect at run time. \<^verbatim>\<open>Email\<close> adds the flag \<^verbatim>\<open>sent\<close>, and
  \<^verbatim>\<open>HistoryEntry\<close> copies the three fields of an email and adds \<^verbatim>\<open>dateSent\<close>.
\<close>

record draft =
  to :: "json option"
  subject :: "json option"
  body :: "json option"

record Email = draft +
  sent :: bool

record HistoryEntry = draft +
  dateSent :: jsstring

text \<open>
  A contact, with the seven properties of the interface \<^verbatim>\<open>Contact\<close>. Each field holds the
  value that the parsed object has for the property, of whatever type, or \<open>None\<close> when the
  object has no such property: \<^verbatim>\<open>findContacts\<close> checks only that three of them are present.
\<close>

record Contact =
  name :: "json option"
  title :: "json option"
  email :: "json option"
  researchInterests :: "json option"
  labWebsite :: "json option"
  recentPublication :: "json option"
  linkedinProfile :: "json option"

section \<open>The AI gateway\<close>

text \<open>
  Each operation builds a prompt, awaits one \<^verbatim>\<open>generateContent\<close> request and then parses
  the text of the response. The parameter \<open>reply\<close> is the settled outcome of the first two
  steps, which lie outside the \<^verbatim>\<open>try\<close> block: \<open>Inr text\<close> when the request resolved with
  \<^verbatim>\<open>response.text = text\<close>, and \<open>Inl e\<close> when building the prompt threw (as \<^verbatim>\<open>resume.skills.join\<close>
  does on a value that is not an array) or the request was rejected, in which case the
  operation rejects with the same error. The text of a response is a string, as the
  parameter of \<^verbatim>\<open>cleanJsonString\<close> is declared.
\<close>

type_synonym reply = "jsError + jsstring"

subsection \<open>parseResume\<close>

definition resumeError :: jsError where
  "resumeError = Error (str ''The model's response for resume analysis was not valid JSON.'')"

definition parseResume :: "jsonParse \<Rightarrow> rawFile \<Rightarrow> reply \<Rightarrow> jsError + ResumeData" where
  "parseResume parse resume reply =
     (case reply of
        Inl e \<Rightarrow> Inl e
      | Inr text \<Rightarrow>
          (case parse (cleanJsonString text) of
             None \<Rightarrow> Inl resumeError
           | Some parsedJson \<Rightarrow>
               (case getProp parsedJson (str ''skills'') of
                  Inl _ \<Rightarrow> Inl resumeError
                | Inr sk \<Rightarrow>
                    (case getProp parsedJson (str ''educationLevel'') of
                       Inl _ \<Rightarrow> Inl resumeError
                     | Inr ed \<Rightarrow>
                         (case getProp parsedJson (str ''projects'') of
                            Inl _ \<Rightarrow> Inl resumeError
                          | Inr pr \<Rightarrow>
                              Inr \<lparr>rawFile.name = rawFile.name resume,
                                   mimeType = mimeType resume,
                                   data = data resume,
                                   skills = orElse sk (JArray []),
                                   educationLevel = orElse ed (JString (str ''Not found'')),
                                   projects = orElse pr (JArray [])\<rparr>)))))"

subsection \<open>findContacts\<close>

definition contactsError :: jsError where
  "contactsError = Error (str ''The model's response was not valid JSON. Please try again.'')"

text \<open>
  The callback of \<^verbatim>\<open>result.every\<close>: \<^verbatim>\<open>&&\<close> evaluates its operands from the left and stops at
  the first false one.
\<close>

definition looksLikeContact :: "json \<Rightarrow> jsError + bool" where
  "looksLikeContact item =
     (case inOp (str ''name'') item of
        Inl e \<Rightarrow> Inl e
      | Inr False \<Rightarrow> Inr False
      | Inr True \<Rightarrow>
          (case inOp (str ''title'') item of
             Inl e \<Rightarrow> Inl e
           | Inr False \<Rightarrow> Inr False
           | Inr True \<Rightarrow> inOp (str ''researchInterests'') item))"

text \<open>\<^verbatim>\<open>Array.prototype.every\<close>: stops at the first element that fails the test.\<close>

fun every :: "('a \<Rightarrow> jsError + bool) \<Rightarrow> 'a list \<Rightarrow> jsError + bool" where
  "every f [] = Inr True"
| "every f (x # xs) =
     (case f x of Inl e \<Rightarrow> Inl e | Inr False \<Rightarrow> Inr False | Inr True \<Rightarrow> every f xs)"

text \<open>
  The assertion \<^verbatim>\<open>result as Contact[]\<close> has no effect at run time: the contacts are the
  parsed objects themselves. Every element of a returned array is an object (a non-empty
  array is returned only when \<open>every looksLikeContact\<close> holds), and the application reads
  no property of a contact but the seven of the interface. \<open>asContact\<close> is the object seen
  through these seven properties, each with the value the object has for it.
\<close>

definition ownProp :: "json \<Rightarrow> jsstring \<Rightarrow> json option" where
  "ownProp item k = (case item of JObject kvs \<Rightarrow> map_of kvs k | _ \<Rightarrow> None)"

definition asContact :: "json \<Rightarrow> Contact" where
  "asContact item =
     \<lparr>name = ownProp item (str ''name''),
      title = ownProp item (str ''title''),
      email = ownProp item (str ''email''),
      researchInterests = ownProp item (str ''researchInterests''),
      labWebsite = ownProp item (str ''labWebsite''),
      recentPublication = ownProp item (str ''recentPublication''),
      linkedinProfile = ownProp item (str ''linkedinProfile'')\<rparr>"

definition findContacts :: "jsonParse \<Rightarrow> reply \<Rightarrow> jsError + Contact list" where
  "findContacts parse reply =
     (case reply of
        Inl e \<Rightarrow> Inl e
      | Inr text \<Rightarrow>
          (case parse (cleanJsonString text) of
             None \<Rightarrow> Inl contactsError
           | Some (JArray result) \<Rightarrow>
               (if 0 < length result
                then (case every looksLikeContact result of
                        Inl _ \<Rightarrow> Inl contactsError
                      | Inr False \<Rightarrow> Inl contactsError
                      | Inr True \<Rightarrow> Inr (map asContact result))
                else Inr (map asContact result))
           | Some _ \<Rightarrow> Inl contactsError))"

subsection \<open>generateEmailForContact\<close>

definition emailError :: jsError where
  "emailError = Error (str ''The model's response for email generation was not valid JSON.'')"

definition generateEmailForContact :: "jsonParse \<Rightarrow> Contact \<Rightarrow> reply \<Rightarrow> jsError + draft" where
  "generateEmailForContact parse contact reply =
     (case reply of
        Inl e \<Rightarrow> Inl e
      | Inr text \<Rightarrow>
          (case parse (cleanJsonString text) of
             None \<Rightarrow> Inl emailError
           | Some emailContent \<Rightarrow>
               (case getProp emailContent (str ''subject'') of
                  Inl _ \<Rightarrow> Inl emailError
                | Inr s \<Rightarrow>
                    (case getProp emailContent (str ''body'') of
                       Inl _ \<Rightarrow> Inl emailError
                     | Inr b \<Rightarrow> Inr \<lparr>to = email contact, subject = s, body = b\<rparr>))))"


section \<open>The wizard (App.tsx)\<close>

text \<open>
  The state of the component \<^verbatim>\<open>App\<close>, one field for each \<^verbatim>\<open>useState\<close> cell that the
  handlers below read or write (the display settings \<^verbatim>\<open>view\<close> and \<^verbatim>\<open>isDarkMode\<close> are left
  out). A handler is modelled as one atomic transition from the state it was started in
  to the state after its last update, together with the calls it made to the outside in
  the order it made them; other handlers running while it awaits are not modelled.
\<close>

text \<open>
  The elements of the set \<^verbatim>\<open>selectedContacts\<close> are values of the property \<^verbatim>\<open>email\<close> of contacts.
  A \<^verbatim>\<open>Set\<close> compares a boolean, a number or a string by value and an object or an array by
  identity. \<^verbatim>\<open>JSON.parse\<close> creates a new object for every object and array of the text, so an
  \<^verbatim>\<open>email\<close> that is an object or an array is identical to no other value: \<open>EmailOf i\<close> stands
  for the object that is the \<^verbatim>\<open>email\<close> of the contact at index \<open>i\<close> of the contact list. The
  handlers only ever replace the contact list together with the set, so an index in the
  set always refers to the current list.
\<close>

datatype setElement = Undefined | Primitive json | EmailOf nat

record AppState =
  currentStep :: Step
  resumeData :: "ResumeData option"
  university :: jsstring
  department :: jsstring
  purpose :: jsstring
  contacts :: "Contact list"
  selectedContacts :: "setElement set"
  emails :: "Email list"
  history :: "HistoryEntry list"
  isLoading :: bool
  isParsingResume :: bool
  isGeneratingEmails :: bool
  isSending :: bool
  error :: "jsstring option"

text \<open>
  The calls to the outside: an invocation of one of the three gateway operations with
  its arguments, \<^verbatim>\<open>window.open\<close> with the link, \<^verbatim>\<open>localStorage.setItem\<close> with the history
  that is serialised under the key \<^verbatim>\<open>academicOutreachHistory\<close>, and \<^verbatim>\<open>localStorage.removeItem\<close>
  of that key. Writes to the console and the pause between two links are not recorded.
\<close>

datatype effect =
    CallParseResume rawFile
  | CallFindContacts jsstring jsstring ResumeData
  | CallGenerateEmail Contact jsstring ResumeData
  | WindowOpen jsstring
  | StorageSet "HistoryEntry list"
  | StorageRemove

definition initialState :: AppState where
  "initialState =
     \<lparr>currentStep = Input, resumeData = None, university = [], department = [],
      purpose = str ''seeking a PhD research position'', contacts = [],
      selectedContacts = {}, emails = [], history = [], isLoading = False,
      isParsingResume = False, isGeneratingEmails = False, isSending = False,
      error = None\<rparr>"

subsection \<open>handleFileChange\<close>

record File =
  name :: jsstring
  type :: jsstring

definition rejectFile :: "AppState \<Rightarrow> AppState" where
  "rejectFile st = st\<lparr>error := Some (str ''Please upload a valid PDF file.''), resumeData := None\<rparr>"

text \<open>
  \<open>file\<close> is \<^verbatim>\<open>event.target.files?.[0]\<close> and \<open>base64String\<close> the part of the data URL after the
  first comma (\<open>None\<close> when there is none).
\<close>

definition handleFileChange ::
  "jsonParse \<Rightarrow> File option \<Rightarrow> jsstring option \<Rightarrow> reply \<Rightarrow> AppState \<Rightarrow> AppState \<times> effect list" where
  "handleFileChange parse file base64String reply st =
     (case file of
        None \<Rightarrow> (rejectFile st, [])
      | Some f \<Rightarrow>
          if type f = str ''application/pdf''
          then
            (let st1 = st\<lparr>isParsingResume := True, error := None, resumeData := None\<rparr>
             in case base64String of
                  None \<Rightarrow> (st1, [])
                | Some b \<Rightarrow>
                    if b = [] then (st1, [])
                    else
                      (let raw = \<lparr>rawFile.name = File.name f, mimeType = type f, data = b\<rparr>
                       in case parseResume parse raw reply of
                            Inr parsedData \<Rightarrow>
                              (st1\<lparr>resumeData := Some parsedData, isParsingResume := False\<rparr>,
                               [CallParseResume raw])
                          | Inl _ \<Rightarrow>
                              (st1\<lparr>error := Some (str ''Failed to parse resume. The AI couldn't extract details. Please try another file.''),
                                   resumeData := None, isParsingResume := False\<rparr>,
                               [CallParseResume raw])))
          else (rejectFile st, []))"

subsection \<open>handleFindContacts\<close>

text \<open>
  The truthiness of \<^verbatim>\<open>p.email\<close>: the property is present and its value is neither \<^verbatim>\<open>null\<close>,
  nor \<^verbatim>\<open>false\<close>, nor zero, nor the empty string.
\<close>

definition hasEmail :: "Contact \<Rightarrow> bool" where
  "hasEmail p = (case email p of None \<Rightarrow> False | Some v \<Rightarrow> truthy v)"

text \<open>
  \<^verbatim>\<open>p.email as string\<close>, for the contact \<open>p\<close> at index \<open>i\<close> of the contact list, as an element of
  the set: the assertion has no effect at run time.
\<close>

definition emailElement :: "nat \<Rightarrow> Contact \<Rightarrow> setElement" where
  "emailElement i p =
     (case email p of
        None \<Rightarrow> Undefined
      | Some (JArray xs) \<Rightarrow> EmailOf i
      | Some (JObject kvs) \<Rightarrow> EmailOf i
      | Some v \<Rightarrow> Primitive v)"

text \<open>
  \<^verbatim>\<open>foundContacts.filter(p => p.email).map(p => p.email as string)\<close>, each contact taken with
  its index.
\<close>

definition truthyEmails :: "Contact list \<Rightarrow> setElement list" where
  "truthyEmails found =
     map (\<lambda>(i, p). emailElement i p) (filter (\<lambda>(i, p). hasEmail p) (enumerate 0 found))"

definition guardMessage :: jsstring where
  "guardMessage = str ''Please upload your resume and enter a university name and department.''"

definition handleFindContacts :: "jsonParse \<Rightarrow> reply \<Rightarrow> AppState \<Rightarrow> AppState \<times> effect list" where
  "handleFindContacts parse reply st =
     (case resumeData st of
        None \<Rightarrow>
          (st\<lparr>error := Some guardMessage\<rparr>, [])
      | Some resume \<Rightarrow>
          if university st = [] \<or> department st = []
          then (st\<lparr>error := Some guardMessage\<rparr>, [])
          else
            (case findContacts parse reply of
               Inr foundContacts \<Rightarrow>
                 (st\<lparr>error := None,
                     contacts := foundContacts,
                     selectedContacts := set (truthyEmails foundContacts),
                     currentStep := Select,
                     isLoading := False\<rparr>,
                  [CallFindContacts (university st) (department st) resume])
             | Inl _ \<Rightarrow>
                 (st\<lparr>error := Some (str ''Failed to find contacts. The model may have returned an unexpected format. Please try again.''),
                     isLoading := False\<rparr>,
                  [CallFindContacts (university st) (department st) resume])))"

subsection \<open>handleContactSelection\<close>

definition handleContactSelection :: "setElement \<Rightarrow> AppState \<Rightarrow> AppState" where
  "handleContactSelection addr st =
     st\<lparr>selectedContacts :=
          (if addr \<in> selectedContacts st
           then selectedContacts st - {addr}
           else insert addr (selectedContacts st))\<rparr>"

subsection \<open>handleGenerateEmails\<close>

text \<open>
  \<^verbatim>\<open>Promise.all\<close>: the list of the results when every promise resolves, a rejection when one
  of them rejects. The handler does not look at the error of the rejection; the model
  takes the first one in list order.
\<close>

fun promiseAll :: "('e + 'a) list \<Rightarrow> 'e + 'a list" where
  "promiseAll [] = Inr []"
| "promiseAll (r # rs) =
     (case r of
        Inl e \<Rightarrow> Inl e
      | Inr v \<Rightarrow> (case promiseAll rs of Inl e \<Rightarrow> Inl e | Inr vs \<Rightarrow> Inr (v # vs)))"

text \<open>
  \<^verbatim>\<open>contacts.filter(p => p.email && selectedContacts.has(p.email))\<close>, each contact taken with
  its index.
\<close>

definition contactsToEmail :: "AppState \<Rightarrow> Contact list" where
  "contactsToEmail st =
     map snd (filter (\<lambda>(i, p). hasEmail p \<and> emailElement i p \<in> selectedContacts st)
                     (enumerate 0 (contacts st)))"

text \<open>\<^verbatim>\<open>{ ...e, sent: false }\<close>\<close>

definition withStatus :: "draft \<Rightarrow> Email" where
  "withStatus e = \<lparr>to = to e, subject = subject e, body = body e, sent = False\<rparr>"

text \<open>
  \<open>replies i\<close> is the outcome of the request issued for the contact at position \<open>i\<close> of
  \<open>contactsToEmail\<close>.
\<close>

definition emailPromises :: "jsonParse \<Rightarrow> (nat \<Rightarrow> reply) \<Rightarrow> AppState \<Rightarrow> (jsError + draft) list" where
  "emailPromises parse replies st =
     map (\<lambda>(i, contact). generateEmailForContact parse contact (replies i))
         (enumerate 0 (contactsToEmail st))"

definition generateGuardMessage :: jsstring where
  "generateGuardMessage =
     str ''Something went wrong. Please ensure resume, purpose, and contacts are selected.''"

definition generateFailedMessage :: jsstring where
  "generateFailedMessage = str ''An error occurred while generating emails. Please try again.''"

definition handleGenerateEmails ::
  "jsonParse \<Rightarrow> (nat \<Rightarrow> reply) \<Rightarrow> AppState \<Rightarrow> AppState \<times> effect list" where
  "handleGenerateEmails parse replies st =
     (case resumeData st of
        None \<Rightarrow>
          (st\<lparr>error := Some generateGuardMessage\<rparr>, [])
      | Some resume \<Rightarrow>
          if purpose st = [] \<or> selectedContacts st = {}
          then (st\<lparr>error := Some generateGuardMessage\<rparr>, [])
          else
            (let calls = map (\<lambda>contact. CallGenerateEmail contact (purpose st) resume)
                             (contactsToEmail st)
             in case promiseAll (emailPromises parse replies st) of
                  Inr generatedEmails \<Rightarrow>
                    (st\<lparr>error := None,
                        emails := map withStatus generatedEmails,
                        currentStep := Review,
                        isGeneratingEmails := False\<rparr>,
                     calls)
                | Inl _ \<Rightarrow>
                    (st\<lparr>error := Some generateFailedMessage,
                        emails := [],
                        isGeneratingEmails := False\<rparr>,
                     calls)))"

subsection \<open>handleEmailChange\<close>

text \<open>
  The updater copies the array and assigns to \<^verbatim>\<open>newEmails[index].body\<close>; when there is no
  element at \<open>index\<close> the assignment throws a \<^verbatim>\<open>TypeError\<close>.
\<close>

definition handleEmailChange :: "int \<Rightarrow> jsstring \<Rightarrow> AppState \<Rightarrow> jsError + AppState" where
  "handleEmailChange index newBody st =
     (if 0 \<le> index \<and> index < int (length (emails st))
      then Inr (st\<lparr>emails :=
                   (emails st)[nat index :=
                      (emails st ! nat index)\<lparr>body := Some (JString newBody)\<rparr>]\<rparr>)
      else Inl TypeError)"

subsection \<open>handleSendAll\<close>

text \<open>
  The link handed to \<^verbatim>\<open>window.open\<close>. Two built-ins are parameters: \<open>toStr\<close>, the conversion
  of a value to a string in a template literal, under \<^verbatim>\<open>+\<close> and at the entry of
  \<^verbatim>\<open>encodeURIComponent\<close>, and \<open>encodeURIComponent\<close> on strings, which throws a \<^verbatim>\<open>URIError\<close> on a
  lone surrogate (\<open>Inl\<close>).
\<close>

definition mailtoLink ::
  "(json option \<Rightarrow> jsstring) \<Rightarrow> (jsstring \<Rightarrow> jsError + jsstring) \<Rightarrow> Email \<Rightarrow> jsError + jsstring" where
  "mailtoLink toStr encodeURIComponent mail =
     (case encodeURIComponent (toStr (subject mail)) of
        Inl e \<Rightarrow> Inl e
      | Inr s \<Rightarrow>
          (case encodeURIComponent
                  (toStr (body mail) @ [0x0A, 0x0A] @ str ''(Remember to attach your resume!)'') of
             Inl e \<Rightarrow> Inl e
           | Inr b \<Rightarrow>
               Inr (str ''mailto:'' @ toStr (to mail) @ str ''?subject='' @ s @ str ''&body='' @ b)))"

definition historyEntry :: "Email \<Rightarrow> jsstring \<Rightarrow> HistoryEntry" where
  "historyEntry mail date =
     \<lparr>to = to mail, subject = subject mail, body = body mail, dateSent = date\<rparr>"

text \<open>
  The loop \<^verbatim>\<open>for (let i = 0; i < emails.length; i++)\<close> over the array \<open>emails\<close> that the
  handler captured. \<open>i\<close> is the index and the list argument holds \<^verbatim>\<open>emails[i]\<close>,
  \<^verbatim>\<open>emails[i+1]\<close> and so on; \<open>mail\<close> is the variable \<^verbatim>\<open>email\<close> of the source. The triple holds the
  state cell that \<^verbatim>\<open>setEmails\<close> updates, \<^verbatim>\<open>newHistoryEntries\<close> and the calls made so far.
  \<open>clock i\<close> is \<^verbatim>\<open>new Date().toISOString()\<close> in iteration \<open>i\<close>. The link is built before the
  window is opened and the email marked, so an exception from it ends the loop with the
  email at \<open>i\<close> untouched; the result starts with that exception, if any. The state cell
  has the length of the captured array, so the assignment \<^verbatim>\<open>newEmails[i] = ...\<close> is always in
  range.
\<close>

fun sendLoop ::
  "(Email \<Rightarrow> jsError + jsstring) \<Rightarrow> (nat \<Rightarrow> jsstring) \<Rightarrow> nat \<Rightarrow> Email list \<Rightarrow>
   Email list \<times> HistoryEntry list \<times> effect list \<Rightarrow>
   jsError option \<times> Email list \<times> HistoryEntry list \<times> effect list" where
  "sendLoop link clock i [] (cur, newHistoryEntries, fx) = (None, cur, newHistoryEntries, fx)"
| "sendLoop link clock i (mail # rest) (cur, newHistoryEntries, fx) =
     (if \<not> sent mail
      then (case link mail of
              Inl e \<Rightarrow> (Some e, cur, newHistoryEntries, fx)
            | Inr mailto \<Rightarrow>
                sendLoop link clock (Suc i) rest
                  (cur[i := (cur ! i)\<lparr>sent := True\<rparr>],
                   newHistoryEntries @ [historyEntry mail (clock i)],
                   fx @ [WindowOpen mailto]))
      else sendLoop link clock (Suc i) rest (cur, newHistoryEntries, fx))"

definition handleSendAll ::
  "(json option \<Rightarrow> jsstring) \<Rightarrow> (jsstring \<Rightarrow> jsError + jsstring) \<Rightarrow> (nat \<Rightarrow> jsstring) \<Rightarrow>
   AppState \<Rightarrow> jsError option \<times> AppState \<times> effect list" where
  "handleSendAll toStr encodeURIComponent clock st =
     (case sendLoop (mailtoLink toStr encodeURIComponent) clock 0 (emails st) (emails st, [], []) of
        (Some e, cur, newHistoryEntries, fx) \<Rightarrow>
          (Some e, st\<lparr>isSending := True, emails := cur\<rparr>, fx)
      | (None, cur, newHistoryEntries, fx) \<Rightarrow>
          if 0 < length newHistoryEntries
          then (None,
                st\<lparr>emails := cur, history := newHistoryEntries @ history st, isSending := False\<rparr>,
                fx @ [StorageSet (newHistoryEntries @ history st)])
          else (None, st\<lparr>emails := cur, isSending := False\<rparr>, fx))"

subsection \<open>handleClearHistory and handleBack\<close>

text \<open>\<open>confirmed\<close> is the answer to \<^verbatim>\<open>window.confirm\<close>.\<close>

definition handleClearHistory :: "bool \<Rightarrow> AppState \<Rightarrow> AppState \<times> effect list" where
  "handleClearHistory confirmed st =
     (if confirmed then (st\<lparr>history := []\<rparr>, [StorageRemove]) else (st, []))"

definition handleBack :: "AppState \<Rightarrow> AppState" where
  "handleBack st =
     (if currentStep st = Review then st\<lparr>currentStep := Select\<rparr>
      else if currentStep st = Select then st\<lparr>currentStep := Input\<rparr>
      else st)"

subsection \<open>Sessions\<close>

text \<open>
  The events of a session, each with the outside input it meets, as the elements of
  \<^verbatim>\<open>renderContent\<close> wire them to the handlers. \<open>LoadHistory\<close> is the effect that reads the
  stored history after mounting. A contact's checkbox calls \<^verbatim>\<open>handleContactSelection\<close> with
  that contact's \<^verbatim>\<open>email\<close> and does nothing when it is not truthy; the text area of
  the email at some index calls \<^verbatim>\<open>handleEmailChange\<close> with that index. The model accepts an
  event in every step, also where the page shows a button disabled or not at all.
\<close>

datatype event =
    LoadHistory "HistoryEntry list"
  | SetUniversity jsstring
  | SetDepartment jsstring
  | SetPurpose jsstring
  | FileChange "File option" "jsstring option" reply
  | FindContacts reply
  | ToggleContact nat
  | GenerateEmails "nat \<Rightarrow> reply"
  | EmailChange nat jsstring
  | SendAll "nat \<Rightarrow> jsstring"
  | Back
  | ClearHistory bool

fun step ::
  "jsonParse \<Rightarrow> (json option \<Rightarrow> jsstring) \<Rightarrow> (jsstring \<Rightarrow> jsError + jsstring) \<Rightarrow>
   AppState \<Rightarrow> event \<Rightarrow> AppState" where
  "step parse toStr enc st (LoadHistory h) = st\<lparr>history := h\<rparr>"
| "step parse toStr enc st (SetUniversity u) = st\<lparr>university := u\<rparr>"
| "step parse toStr enc st (SetDepartment d) = st\<lparr>department := d\<rparr>"
| "step parse toStr enc st (SetPurpose p) = st\<lparr>purpose := p\<rparr>"
| "step parse toStr enc st (FileChange file b reply) = fst (handleFileChange parse file b reply st)"
| "step parse toStr enc st (FindContacts reply) = fst (handleFindContacts parse reply st)"
| "step parse toStr enc st (ToggleContact i) =
     (if i < length (contacts st) \<and> hasEmail (contacts st ! i)
      then handleContactSelection (emailElement i (contacts st ! i)) st
      else st)"
| "step parse toStr enc st (GenerateEmails replies) = fst (handleGenerateEmails parse replies st)"
| "step parse toStr enc st (EmailChange i newBody) =
     (if i < length (emails st)
      then (case handleEmailChange (int i) newBody st of Inr st' \<Rightarrow> st' | Inl _ \<Rightarrow> st)
      else st)"
| "step parse toStr enc st (SendAll clock) = fst (snd (handleSendAll toStr enc clock st))"
| "step parse toStr enc st Back = handleBack st"
| "step parse toStr enc st (ClearHistory confirmed) = fst (handleClearHistory confirmed st)"

definition run ::
  "jsonParse \<Rightarrow> (json option \<Rightarrow> jsstring) \<Rightarrow> (jsstring \<Rightarrow> jsError + jsstring) \<Rightarrow>
   event list \<Rightarrow> AppState" where
  "run parse toStr enc evs = foldl (step parse toStr enc) initialState evs"

section \<open>Specification predicates and sample inputs\<close>

text \<open>
  An element of a discovery result exposes the three mandatory fields when it is an
  object with the properties \<^verbatim>\<open>name\<close>, \<^verbatim>\<open>title\<close> and \<^verbatim>\<open>researchInterests\<close>.
\<close>

definition exposes :: "json \<Rightarrow> bool" where
  "exposes item =
     (case item of
        JObject kvs \<Rightarrow>
          str ''name'' \<in> fst ` set kvs \<and> str ''title'' \<in> fst ` set kvs \<and>
          str ''researchInterests'' \<in> fst ` set kvs
      | _ \<Rightarrow> False)"

text \<open>
  The values of \<^verbatim>\<open>JSON.parse\<close> on the few texts that the examples below feed to it; the
  table is \<open>None\<close> on every other text.
\<close>

definition jsonParseTable :: jsonParse where
  \<open>jsonParseTable s =
     (if s = str ''null'' then Some JNull
      else if s = str ''{}'' then Some (JObject [])
      else if s = str ''[]'' then Some (JArray [])
      else if s = str ''[1,2]'' then Some (JArray [JNumber (NumFinite 1), JNumber (NumFinite 2)])
      else if s = str ''{"skills":true}'' then Some (JObject [(str ''skills'', JBool True)])
      else if s = str ''[{"name":"Ada","title":"Prof","researchInterests":"Logic","email":"ada@u.edu"}]''
        then Some (JArray [JObject [(str ''name'', JString (str ''Ada'')),
                                    (str ''title'', JString (str ''Prof'')),
                                    (str ''researchInterests'', JString (str ''Logic'')),
                                    (str ''email'', JString (str ''ada@u.edu''))]])
      else if s = str ''[{"name":"Ada"}]''
        then Some (JArray [JObject [(str ''name'', JString (str ''Ada''))]])
      else if s = str ''{"subject":"Hello","body":"Dear Ada"}''
        then Some (JObject [(str ''subject'', JString (str ''Hello'')),
                            (str ''body'', JString (str ''Dear Ada''))])
      else if s = str ''[{"name":"Ann","title":"Dr","researchInterests":"Sets","email":""}]''
        then Some (JArray [JObject [(str ''name'', JString (str ''Ann'')),
                                    (str ''title'', JString (str ''Dr'')),
                                    (str ''researchInterests'', JString (str ''Sets'')),
                                    (str ''email'', JString [])]])
      else if s = str ''[{"name":"Al","title":"Dr","researchInterests":"Sets","email":5}]''
        then Some (JArray [JObject [(str ''name'', JString (str ''Al'')),
                                    (str ''title'', JString (str ''Dr'')),
                                    (str ''researchInterests'', JString (str ''Sets'')),
                                    (str ''email'', JNumber (NumFinite 5))]])
      else None)\<close>

definition sampleFile :: rawFile where
  "sampleFile = \<lparr>rawFile.name = str ''cv.pdf'', mimeType = str ''application/pdf'', data = str ''QQ==''\<rparr>"

definition sampleResume :: ResumeData where
  "sampleResume =
     \<lparr>rawFile.name = str ''cv.pdf'', mimeType = str ''application/pdf'', data = str ''QQ=='',
      skills = JArray [], educationLevel = JString (str ''Not found''), projects = JArray []\<rparr>"

definition ada :: Contact where
  "ada = \<lparr>Contact.name = Some (JString (str ''Ada'')), title = Some (JString (str ''Prof'')),
          email = Some (JString (str ''ada@u.edu'')),
          researchInterests = Some (JString (str ''Logic'')), labWebsite = None,
          recentPublication = None, linkedinProfile = None\<rparr>"

definition bob :: Contact where
  "bob = \<lparr>Contact.name = Some (JString (str ''Bob'')), title = Some (JString (str ''Dr'')),
          email = Some JNull,
          researchInterests = Some (JString (str ''Algebra'')), labWebsite = None,
          recentPublication = None, linkedinProfile = None\<rparr>"

definition ann :: Contact where
  "ann = \<lparr>Contact.name = Some (JString (str ''Ann'')), title = Some (JString (str ''Dr'')),
          email = Some (JString []),
          researchInterests = Some (JString (str ''Sets'')), labWebsite = None,
          recentPublication = None, linkedinProfile = None\<rparr>"

definition al :: Contact where
  "al = \<lparr>Contact.name = Some (JString (str ''Al'')), title = Some (JString (str ''Dr'')),
         email = Some (JNumber (NumFinite 5)),
         researchInterests = Some (JString (str ''Sets'')), labWebsite = None,
         recentPublication = None, linkedinProfile = None\<rparr>"

definition readyState :: AppState where
  "readyState =
     initialState\<lparr>resumeData := Some sampleResume, university := str ''MIT'',
                  department := str ''Logic''\<rparr>"

text \<open>The links passed to \<^verbatim>\<open>window.open\<close>, in the order of the calls.\<close>

fun windowOpens :: "effect list \<Rightarrow> jsstring list" where
  "windowOpens [] = []"
| "windowOpens (WindowOpen l # fx) = l # windowOpens fx"
| "windowOpens (f # fx) = windowOpens fx"

definition markSent :: "Email \<Rightarrow> Email" where
  "markSent m = m\<lparr>sent := True\<rparr>"

definition unsent :: "Email \<Rightarrow> bool" where
  "unsent m = (\<not> sent m)"

text \<open>
  The invariant of claim C7: every element of the selection set is the \<^verbatim>\<open>email\<close> of a
  contact of the current list, and that \<^verbatim>\<open>email\<close> is present, not \<^verbatim>\<open>null\<close> and truthy; and
  every drafted email has a recipient that is not \<^verbatim>\<open>null\<close> and truthy.
\<close>

definition selectionInvariant :: "AppState \<Rightarrow> bool" where
  "selectionInvariant st \<longleftrightarrow>
     (\<forall>k\<in>selectedContacts st.
        \<exists>i<length (contacts st). \<exists>v.
          email (contacts st ! i) = Some v \<and> v \<noteq> JNull \<and> truthy v \<and>
          k = emailElement i (contacts st ! i)) \<and>
     (\<forall>m\<in>set (emails st). \<exists>v. to m = Some v \<and> v \<noteq> JNull \<and> truthy v)"

text \<open>
  Every event but \<open>GenerateEmails\<close> keeps the drafted records in place; \<open>GenerateEmails\<close>
  discards them and creates new ones.
\<close>

fun keepsDrafts :: "event \<Rightarrow> bool" where
  "keepsDrafts (GenerateEmails replies) = False"
| "keepsDrafts ev = True"

definition sentPreserved :: "Email list \<Rightarrow> Email list \<Rightarrow> bool" where
  "sentPreserved old new \<longleftrightarrow>
     length new = length old \<and> (\<forall>i<length old. sent (old ! i) \<longrightarrow> sent (new ! i))"

definition annText :: jsstring where
  \<open>annText = str ''[{"name":"Ann","title":"Dr","researchInterests":"Sets","email":""}]''\<close>

definition alText :: jsstring where
  \<open>alText = str ''[{"name":"Al","title":"Dr","researchInterests":"Sets","email":5}]''\<close>

definition adaText :: jsstring where
  \<open>adaText = str ''[{"name":"Ada","title":"Prof","researchInterests":"Logic","email":"ada@u.edu"}]''\<close>

definition helloText :: jsstring where
  \<open>helloText = str ''{"subject":"Hello","body":"Dear Ada"}''\<close>

definition helloMail :: Email where
  "helloMail = \<lparr>to = Some (JString (str ''ada@u.edu'')), subject = Some (JString (str ''Hello'')),
               body = Some (JString (str ''Dear Ada'')), sent = False\<rparr>"

definition otherMail :: Email where
  "otherMail = \<lparr>to = Some (JString (str ''eve@u.edu'')), subject = Some (JString (str ''Hi'')),
               body = Some (JString (str ''Dear Eve'')), sent = True\<rparr>"

text \<open>
  A state on the step Select with the contacts Ada (with an address, selected) and Bob
  (whose \<^verbatim>\<open>email\<close> is \<^verbatim>\<open>null\<close>).
\<close>

definition selectState :: AppState where
  "selectState =
     readyState\<lparr>currentStep := Select, contacts := [ada, bob],
                selectedContacts := {Primitive (JString (str ''ada@u.edu''))}\<rparr>"

text \<open>A state on the step Review with one email already sent and one not yet.\<close>

definition reviewState :: AppState where
  "reviewState = selectState\<lparr>currentStep := Review, emails := [otherMail, helloMail]\<rparr>"

text \<open>
  The conversion of a value to a string, for the values of the examples: \<^verbatim>\<open>undefined\<close>,
  \<^verbatim>\<open>null\<close>, booleans, strings and objects. The examples put no number and no array in a
  position that is converted; the stand-in gives the empty string there.
\<close>

definition toStrSample :: "json option \<Rightarrow> jsstring" where
  "toStrSample v =
     (case v of
        None \<Rightarrow> str ''undefined''
      | Some JNull \<Rightarrow> str ''null''
      | Some (JBool b) \<Rightarrow> (if b then str ''true'' else str ''false'')
      | Some (JString s) \<Rightarrow> s
      | Some (JObject kvs) \<Rightarrow> str ''[object Object]''
      | Some _ \<Rightarrow> [])"

text \<open>
  \<^verbatim>\<open>encodeURIComponent\<close> on strings, after ECMAScript's \<^verbatim>\<open>Encode\<close>: an unreserved character
  (a letter, a digit or one of \<^verbatim>\<open>- _ . ! ~ * ' ( )\<close>) stands for itself; any other code point
  is written as the bytes of its UTF-8 form, each as \<^verbatim>\<open>%\<close> and two upper-case hexadecimal
  digits; a surrogate that is not the first half of a pair followed by its second half
  is a \<^verbatim>\<open>URIError\<close>.
\<close>

definition unreserved :: "16 word \<Rightarrow> bool" where
  "unreserved c \<longleftrightarrow>
     (0x41 \<le> c \<and> c \<le> 0x5A) \<or> (0x61 \<le> c \<and> c \<le> 0x7A) \<or> (0x30 \<le> c \<and> c \<le> 0x39) \<or>
     c = 0x2D \<or> c = 0x5F \<or> c = 0x2E \<or> c = 0x21 \<or> c = 0x7E \<or> c = 0x2A \<or>
     c = 0x27 \<or> c = 0x28 \<or> c = 0x29"

definition hexDigit :: "nat \<Rightarrow> 16 word" where
  "hexDigit n = (if n < 10 then 0x30 + of_nat n else 0x41 + of_nat (n - 10))"

definition percent :: "nat \<Rightarrow> jsstring" where
  "percent b = [0x25, hexDigit (b div 16), hexDigit (b mod 16)]"

definition utf8 :: "nat \<Rightarrow> nat list" where
  "utf8 cp =
     (if cp < 0x80 then [cp]
      else if cp < 0x800 then [0xC0 + cp div 64, 0x80 + cp mod 64]
      else if cp < 0x10000
        then [0xE0 + cp div 4096, 0x80 + (cp div 64) mod 64, 0x80 + cp mod 64]
      else [0xF0 + cp div 262144, 0x80 + (cp div 4096) mod 64, 0x80 + (cp div 64) mod 64,
            0x80 + cp mod 64])"

definition escaped :: "nat \<Rightarrow> jsstring" where
  "escaped cp = concat (map percent (utf8 cp))"

fun encodeSample :: "jsstring \<Rightarrow> jsError + jsstring" where
  "encodeSample [] = Inr []"
| "encodeSample (c # cs) =
     (if unreserved c
      then (case encodeSample cs of Inl e \<Rightarrow> Inl e | Inr r \<Rightarrow> Inr (c # r))
      else if 0xDC00 \<le> c \<and> c \<le> 0xDFFF then Inl URIError
      else if 0xD800 \<le> c \<and> c \<le> 0xDBFF
        then (case cs of
                [] \<Rightarrow> Inl URIError
              | d # ds \<Rightarrow>
                  if 0xDC00 \<le> d \<and> d \<le> 0xDFFF
                  then (case encodeSample ds of
                          Inl e \<Rightarrow> Inl e
                        | Inr r \<Rightarrow>
                            Inr (escaped ((unat c - 0xD800) * 0x400 + (unat d - 0xDC00) + 0x10000)
                                 @ r))
                  else Inl URIError)
      else (case encodeSample cs of Inl e \<Rightarrow> Inl e | Inr r \<Rightarrow> Inr (escaped (unat c) @ r)))"

definition clockSample :: "nat \<Rightarrow> jsstring" where
  "clockSample i = str ''2025-01-01T00:00:00.000Z''"

text \<open>
  A session: upload, discovery of Ada, a first batch of drafts, back to the first step,
  the purpose cleared, discovery again. It ends on the step Select with Ada selected, an
  empty purpose and the draft of the first batch still in the list.
\<close>

definition helloReplies :: "nat \<Rightarrow> reply" where
  "helloReplies i = Inr helloText"

definition staleSession :: "event list" where
  "staleSession =
     [FileChange (Some \<lparr>File.name = str ''cv.pdf'', type = str ''application/pdf''\<rparr>)
                 (Some (str ''QQ=='')) (Inr (str ''{}'')),
      SetUniversity (str ''MIT''),
      SetDepartment (str ''Logic''),
      FindContacts (Inr adaText),
      GenerateEmails helloReplies,
      Back,
      Back,
      SetPurpose [],
      FindContacts (Inr adaText)]"

definition staleState :: AppState where
  "staleState = run jsonParseTable toStrSample encodeSample staleSession"

definition nullReplies :: "nat \<Rightarrow> reply" where
  "nullReplies i = Inr (str ''null'')"

definition editedState :: AppState where
  "editedState =
     reviewState\<lparr>emails := [otherMail, helloMail\<lparr>body := Some (JString (str ''Dear Prof''))\<rparr>]\<rparr>"

text \<open>
  Two sessions: in the first a draft for Ada is made and dispatched; the second goes on
  with a step back and a new run of drafting.
\<close>

definition sentSession :: "event list" where
  "sentSession =
     [FileChange (Some \<lparr>File.name = str ''cv.pdf'', type = str ''application/pdf''\<rparr>)
                 (Some (str ''QQ=='')) (Inr (str ''{}'')),
      SetUniversity (str ''MIT''),
      SetDepartment (str ''Logic''),
      FindContacts (Inr adaText),
      GenerateEmails helloReplies,
      SendAll clockSample]"

definition redraftSession :: "event list" where
  "redraftSession = sentSession @ [Back, GenerateEmails helloReplies]"

definition editAndSend :: "event list" where
  "editAndSend =
     [EmailChange 1 (str ''Dear Prof''), SendAll clockSample, Back, EmailChange 0 (str ''Dear Eve,'')]"

section \<open>Facts about cleanJsonString\<close>

lemma indexOf_ge: "- 1 \<le> indexOf xs c"
  by (induction xs) (auto simp: Let_def)

lemma indexOf_notin: "c \<notin> set xs \<Longrightarrow> indexOf xs c = - 1"
  by (induction xs) (auto simp: Let_def)

lemma indexOf_append_notin:
  "c \<notin> set p \<Longrightarrow>
   indexOf (p @ r) c = (if indexOf r c = - 1 then - 1 else int (length p) + indexOf r c)"
  using indexOf_ge [of r c] by (induction p) (auto simp: Let_def)

lemma indexOf_lt: "indexOf xs c < int (length xs)"
  by (induction xs) (auto simp: Let_def)

lemma lastIndexOf_append_notin: "c \<notin> set s \<Longrightarrow> lastIndexOf (r @ s) c = lastIndexOf r c"
  using indexOf_ge [of "rev r" c] by (auto simp add: lastIndexOf_def indexOf_append_notin Let_def)

lemma lastIndexOf_snoc: "lastIndexOf (r @ [c]) c = int (length r)"
  by (simp add: lastIndexOf_def)

lemma lastIndexOf_le: "lastIndexOf xs c \<le> int (length xs) - 1"
  using indexOf_ge [of "rev xs" c] by (auto simp: lastIndexOf_def Let_def)

lemma lastIndexOf_notin: "c \<notin> set xs \<Longrightarrow> lastIndexOf xs c = - 1"
  by (simp add: lastIndexOf_def indexOf_notin)

lemma substring_middle:
  "substring (p @ J @ s) (int (length p)) (int (length p) + int (length J)) = J"
proof -
  have "nat (int (length p) + int (length J) - int (length p)) = length J" by simp
  then show ?thesis
    by (simp add: substring_def Let_def)
qed

lemma extract_core:
  assumes J: "J = j # J'" "J = K @ [k]"
    and j: "j = lbracket \<or> j = lcurly" and k: "k = rbracket \<or> k = rcurly"
    and p: "lbracket \<notin> set p" "lcurly \<notin> set p"
    and s: "rbracket \<notin> set s" "rcurly \<notin> set s"
  shows "(let cleaned = p @ J @ s;
          firstOpen = indexOf cleaned lbracket;
          firstCurly = indexOf cleaned lcurly;
          start = (if firstOpen = -1 then firstCurly
                   else if firstCurly = -1 then firstOpen
                   else min firstOpen firstCurly)
      in if start = -1 then cleaned
         else
           (let lastClose = lastIndexOf cleaned rbracket;
                lastCurly = lastIndexOf cleaned rcurly;
                end = max lastClose lastCurly
            in if end = -1 \<or> end < start then cleaned
               else substring cleaned start (end + 1))) = J"
proof -
  let ?c = "p @ J @ s"
  let ?n = "int (length p)"
  have fo: "indexOf ?c lbracket = - 1 \<or> ?n \<le> indexOf ?c lbracket"
    using indexOf_ge [of "J @ s" lbracket] by (simp add: indexOf_append_notin p)
  have fc: "indexOf ?c lcurly = - 1 \<or> ?n \<le> indexOf ?c lcurly"
    using indexOf_ge [of "J @ s" lcurly] by (simp add: indexOf_append_notin p)
  have hit: "indexOf ?c j = ?n"
    using j p by (auto simp: indexOf_append_notin J(1))
  define start where "start = (if indexOf ?c lbracket = -1 then indexOf ?c lcurly
                   else if indexOf ?c lcurly = -1 then indexOf ?c lbracket
                   else min (indexOf ?c lbracket) (indexOf ?c lcurly))"
  have start: "start = ?n"
    using fo fc hit j unfolding start_def by auto
  have c2: "?c = ((p @ K) @ [k]) @ s" by (simp add: J(2))
  have drop_s: "lastIndexOf ?c c = lastIndexOf ((p @ K) @ [k]) c" if "c \<notin> set s" for c
    unfolding c2 using that by (rule lastIndexOf_append_notin)
  have lk: "lastIndexOf ?c k = int (length (p @ K))"
    using k s drop_s [of k] lastIndexOf_snoc [of "p @ K" k] by auto
  have lb: "lastIndexOf ?c rbracket \<le> int (length (p @ K))"
    using s drop_s [of rbracket] lastIndexOf_le [of "(p @ K) @ [k]" rbracket] by simp
  have lc: "lastIndexOf ?c rcurly \<le> int (length (p @ K))"
    using s drop_s [of rcurly] lastIndexOf_le [of "(p @ K) @ [k]" rcurly] by simp
  define e where "e = max (lastIndexOf ?c rbracket) (lastIndexOf ?c rcurly)"
  have e: "e = ?n + int (length K)"
    using lk lb lc k unfolding e_def by auto
  have len: "int (length J) = int (length K) + 1" by (simp add: J(2))
  have "substring ?c start (e + 1) = J"
    using substring_middle [of p J s] by (simp add: start e len add.assoc)
  moreover have "start \<noteq> - 1" "e \<noteq> - 1" "\<not> e < start" using start e by auto
  ultimately show ?thesis
    unfolding Let_def start_def [symmetric] e_def [symmetric] by simp
qed


lemma dropWhile_wrap:
  "J \<noteq> [] \<Longrightarrow> \<not> P (hd J) \<Longrightarrow> dropWhile P (p @ J @ s) = dropWhile P p @ J @ s"
  by (induction p) (auto simp: neq_Nil_conv)

lemma trim_wrap:
  assumes "J \<noteq> []" "\<not> isWhiteSpace (hd J)" "\<not> isWhiteSpace (last J)"
  shows "trim (p @ J @ s) =
         dropWhile isWhiteSpace p @ J @ rev (dropWhile isWhiteSpace (rev s))"
proof -
  have "dropWhile isWhiteSpace (rev s @ rev J @ rev (dropWhile isWhiteSpace p)) =
        dropWhile isWhiteSpace (rev s) @ rev J @ rev (dropWhile isWhiteSpace p)"
    using assms by (intro dropWhile_wrap) (simp_all add: hd_rev)
  then show ?thesis
    using assms by (simp add: trim_def dropWhile_wrap)
qed

lemma set_fence: "set fence = {0x60}"
  by (simp add: fence_def str_def)

lemma set_fenceJson: "set fenceJson = {0x60, 0x6A, 0x73, 0x6F, 0x6E}"
  by (auto simp add: fenceJson_def str_def)

lemma length_fence: "length fence = 3" "length fenceJson = 7"
  by (simp_all add: fence_def fenceJson_def str_def)

lemma stripClosingFence_wrap:
  assumes "J \<noteq> []" "last J \<noteq> 0x60"
  shows "stripClosingFence (q @ J @ s) = q @ J @ stripClosingFence s"
proof (cases "3 \<le> length s")
  case True
  then show ?thesis
    by (simp add: stripClosingFence_def)
next
  case False
  have "drop (length (q @ J @ s) - 3) (q @ J @ s) \<noteq> fence"
  proof
    assume eq: "drop (length (q @ J @ s) - 3) (q @ J @ s) = fence"
    obtain K where K: "J = K @ [last J]"
      using assms(1) by (metis append_butlast_last_id)
    have "length (q @ J @ s) - 3 \<le> length (q @ K)"
      using False by (subst K) simp
    then have "last J \<in> set (drop (length (q @ J @ s) - 3) ((q @ K) @ last J # s))"
      by (simp del: append_assoc)
    moreover have "(q @ K) @ last J # s = q @ J @ s"
      by (subst (2) K) simp
    ultimately have "last J \<in> set (drop (length (q @ J @ s) - 3) (q @ J @ s))"
      by (simp only:)
    then have "last J \<in> set fence"
      by (simp only: eq)
    then show False
      using assms(2) by (simp add: set_fence)
  qed
  moreover have "stripClosingFence s = s"
    using False by (simp add: stripClosingFence_def)
  ultimately show ?thesis
    by (simp add: stripClosingFence_def)
qed

lemma take_fenceJson_wrap:
  assumes "J \<noteq> []" "hd J \<notin> set fenceJson" "take 7 (p @ J @ s) = fenceJson"
  shows "7 \<le> length p"
proof (rule ccontr)
  assume "\<not> 7 \<le> length p"
  then have lt: "length p < 7" by simp
  obtain J' where J: "J = hd J # J'"
    using assms(1) by (cases J) auto
  have "(p @ J @ s) ! length p = hd J"
    by (subst J) (simp add: nth_append)
  moreover have "length p < length (take 7 (p @ J @ s))"
    using lt assms(1) by (cases J) auto
  ultimately have "hd J \<in> set (take 7 (p @ J @ s))"
    by (metis nth_mem nth_take lt)
  then have "hd J \<in> set fenceJson"
    by (simp only: assms(3))
  then show False
    using assms(2) by blast
qed

lemma replaceFences_wrap:
  assumes "J \<noteq> []" "hd J = lbracket \<or> hd J = lcurly" "last J = rbracket \<or> last J = rcurly"
  shows "\<exists>p' s'. replaceFences (p @ J @ s) = p' @ J @ s' \<and> set p' \<subseteq> set p \<and> set s' \<subseteq> set s"
proof -
  have hdJ: "hd J \<notin> set fenceJson" "\<not> isWhiteSpace (hd J)"
    using assms(2) by (auto simp: set_fenceJson isWhiteSpace_def lbracket_def lcurly_def)
  have lastJ: "last J \<noteq> 0x60"
    using assms(3) by (auto simp: rbracket_def rcurly_def)
  have s': "set (stripClosingFence s) \<subseteq> set s"
    by (auto simp: stripClosingFence_def dest: in_set_takeD)
  show ?thesis
  proof (cases "take 7 (p @ J @ s) = fenceJson")
    case True
    then have "7 \<le> length p"
      using take_fenceJson_wrap assms(1) hdJ(1) by blast
    then have "drop 7 (p @ J @ s) = drop 7 p @ J @ s" by simp
    then have "replaceFences (p @ J @ s) =
               dropWhile isWhiteSpace (drop 7 p) @ J @ stripClosingFence s"
      using True assms(1) hdJ(2) lastJ
      by (simp add: replaceFences_def dropWhile_wrap stripClosingFence_wrap)
    moreover have "set (dropWhile isWhiteSpace (drop 7 p)) \<subseteq> set p"
      by (meson set_dropWhileD in_set_dropD subsetI)
    ultimately show ?thesis using s' by blast
  next
    case False
    then have "replaceFences (p @ J @ s) = p @ J @ stripClosingFence s"
      using assms(1) lastJ by (simp add: replaceFences_def stripClosingFence_wrap)
    then show ?thesis using s' by blast
  qed
qed

lemma cleanJsonString_wrap:
  assumes "J \<noteq> []" "hd J = lbracket \<or> hd J = lcurly" "last J = rbracket \<or> last J = rcurly"
    and p: "lbracket \<notin> set p" "lcurly \<notin> set p"
    and s: "rbracket \<notin> set s" "rcurly \<notin> set s"
  shows "cleanJsonString (p @ J @ s) = J"
proof -
  obtain p1 s1 where r: "replaceFences (p @ J @ s) = p1 @ J @ s1"
    and sub1: "set p1 \<subseteq> set p" "set s1 \<subseteq> set s"
    using replaceFences_wrap [OF assms(1-3)] by blast
  have ws: "\<not> isWhiteSpace (hd J)" "\<not> isWhiteSpace (last J)"
    using assms(2,3) by (auto simp: isWhiteSpace_def lbracket_def lcurly_def rbracket_def rcurly_def)
  define p2 where "p2 = dropWhile isWhiteSpace p1"
  define s2 where "s2 = rev (dropWhile isWhiteSpace (rev s1))"
  have t: "trim (replaceFences (p @ J @ s)) = p2 @ J @ s2"
    unfolding r p2_def s2_def using assms(1) ws by (rule trim_wrap)
  have "set p2 \<subseteq> set p"
    unfolding p2_def using sub1(1) by (meson set_dropWhileD subsetD subsetI)
  moreover have "set s2 \<subseteq> set s"
    unfolding s2_def using sub1(2) set_dropWhileD [of _ isWhiteSpace "rev s1"] by auto
  ultimately have np: "lbracket \<notin> set p2" "lcurly \<notin> set p2" "rbracket \<notin> set s2" "rcurly \<notin> set s2"
    using p s by auto
  obtain j J' where J1: "J = j # J'" using assms(1) by (cases J) auto
  obtain K where J2: "J = K @ [last J]"
    using assms(1) by (metis append_butlast_last_id)
  have j: "j = lbracket \<or> j = lcurly" using assms(2) J1 by simp
  show ?thesis
    unfolding cleanJsonString_def t
    using extract_core [OF J1 J2 j assms(3) np] .
qed

lemma set_trim: "set (trim s) \<subseteq> set s"
proof -
  have "set (dropWhile isWhiteSpace (rev (dropWhile isWhiteSpace s))) \<subseteq> set (dropWhile isWhiteSpace s)"
    using set_dropWhileD [of _ isWhiteSpace "rev (dropWhile isWhiteSpace s)"] by auto
  moreover have "set (dropWhile isWhiteSpace s) \<subseteq> set s"
    using set_dropWhileD [of _ isWhiteSpace s] by auto
  ultimately show ?thesis
    by (simp add: trim_def)
qed

lemma set_stripClosingFence: "set (stripClosingFence s) \<subseteq> set s"
  by (auto simp: stripClosingFence_def dest: in_set_takeD)

lemma set_replaceFences: "set (replaceFences s) \<subseteq> set s"
proof -
  have "set (dropWhile isWhiteSpace (drop 7 s)) \<subseteq> set s"
    by (meson set_dropWhileD in_set_dropD subsetI)
  then show ?thesis
    using set_stripClosingFence [of "dropWhile isWhiteSpace (drop 7 s)"] set_stripClosingFence [of s]
    by (auto simp: replaceFences_def)
qed

lemma cleanJsonString_no_open:
  assumes "lbracket \<notin> set t" "lcurly \<notin> set t"
  shows "cleanJsonString t = trim (replaceFences t)"
proof -
  have "set (trim (replaceFences t)) \<subseteq> set t"
    using set_trim [of "replaceFences t"] set_replaceFences [of t] by blast
  then have "indexOf (trim (replaceFences t)) lbracket = - 1"
    "indexOf (trim (replaceFences t)) lcurly = - 1"
    using assms by (auto intro: indexOf_notin)
  then show ?thesis
    by (simp add: cleanJsonString_def)
qed

lemma replaceFences_unfenced:
  "take 7 t \<noteq> fenceJson \<Longrightarrow> \<not> (3 \<le> length t \<and> drop (length t - 3) t = fence) \<Longrightarrow>
   replaceFences t = t"
  by (auto simp add: replaceFences_def stripClosingFence_def)

text \<open>
  Claim C1, as the code has it. (1) When the text is \<open>p @ J @ s\<close>, where \<open>J\<close> starts with an
  opening bracket or brace and ends with a closing bracket or brace, the commentary and
  fences \<open>p\<close> before it contain no opening bracket or brace and those after it, \<open>s\<close>, no
  closing one, \<open>cleanJsonString\<close> returns exactly \<open>J\<close>, so the result parses to whatever \<open>J\<close>
  parses to. (2) When the text contains none of the four bracket characters, the result
  is the text with the fences removed and then trimmed; (3) it is the trimmed original
  text when, in addition, the text neither starts with the opening fence nor ends with
  the closing one.
\<close>

theorem cleanJsonString_extracts:
  "(J \<noteq> [] \<and> (hd J = lbracket \<or> hd J = lcurly) \<and> (last J = rbracket \<or> last J = rcurly) \<and>
    lbracket \<notin> set p \<and> lcurly \<notin> set p \<and> rbracket \<notin> set s \<and> rcurly \<notin> set s
      \<longrightarrow> cleanJsonString (p @ J @ s) = J \<and> parse (cleanJsonString (p @ J @ s)) = parse J)
   \<and> (set t \<inter> {lbracket, rbracket, lcurly, rcurly} = {}
      \<longrightarrow> cleanJsonString t = trim (replaceFences t))
   \<and> (set t \<inter> {lbracket, rbracket, lcurly, rcurly} = {} \<and> take 7 t \<noteq> fenceJson \<and>
      \<not> (3 \<le> length t \<and> drop (length t - 3) t = fence)
      \<longrightarrow> cleanJsonString t = trim t)"
proof (intro conjI impI)
  assume a: "J \<noteq> [] \<and> (hd J = lbracket \<or> hd J = lcurly) \<and> (last J = rbracket \<or> last J = rcurly) \<and>
    lbracket \<notin> set p \<and> lcurly \<notin> set p \<and> rbracket \<notin> set s \<and> rcurly \<notin> set s"
  then show eq: "cleanJsonString (p @ J @ s) = J"
    by (intro cleanJsonString_wrap) simp_all
  show "parse (cleanJsonString (p @ J @ s)) = parse J"
    by (simp only: eq)
next
  assume "set t \<inter> {lbracket, rbracket, lcurly, rcurly} = {}"
  then show "cleanJsonString t = trim (replaceFences t)"
    by (intro cleanJsonString_no_open) auto
next
  assume a: "set t \<inter> {lbracket, rbracket, lcurly, rcurly} = {} \<and> take 7 t \<noteq> fenceJson \<and>
      \<not> (3 \<le> length t \<and> drop (length t - 3) t = fence)"
  then have "cleanJsonString t = trim (replaceFences t)"
    by (intro cleanJsonString_no_open) auto
  moreover have "replaceFences t = t"
    using a by (intro replaceFences_unfenced) simp_all
  ultimately show "cleanJsonString t = trim t"
    by simp
qed

text \<open>
  An instance of each part: a fenced array with commentary on both sides, a fenced text
  without brackets, and a padded text without brackets or fences.
\<close>

theorem cleanJsonString_extracts_witness:
  "cleanJsonString (str ''```json Here it is: '' @ str ''[1,2]'' @ str '' Done. ```'') = str ''[1,2]''
   \<and> jsonParseTable (cleanJsonString (str ''```json Here it is: '' @ str ''[1,2]'' @ str '' Done. ```''))
       = Some (JArray [JNumber (NumFinite 1), JNumber (NumFinite 2)])
   \<and> cleanJsonString (str ''```json 42```'') = str ''42''
   \<and> cleanJsonString (str '' 42 '') = str ''42''"
proof -
  have h1: "str ''[1,2]'' \<noteq> [] \<and> (hd (str ''[1,2]'') = lbracket \<or> hd (str ''[1,2]'') = lcurly) \<and>
     (last (str ''[1,2]'') = rbracket \<or> last (str ''[1,2]'') = rcurly) \<and>
     lbracket \<notin> set (str ''```json Here it is: '') \<and> lcurly \<notin> set (str ''```json Here it is: '') \<and>
     rbracket \<notin> set (str '' Done. ```'') \<and> rcurly \<notin> set (str '' Done. ```'')"
    by (simp add: str_def lbracket_def lcurly_def rbracket_def rcurly_def)
  have h2: "set (str ''```json 42```'') \<inter> {lbracket, rbracket, lcurly, rcurly} = {}"
    by (simp add: str_def lbracket_def lcurly_def rbracket_def rcurly_def)
  have h3: "set (str '' 42 '') \<inter> {lbracket, rbracket, lcurly, rcurly} = {} \<and>
     take 7 (str '' 42 '') \<noteq> fenceJson \<and>
     \<not> (3 \<le> length (str '' 42 '') \<and> drop (length (str '' 42 '') - 3) (str '' 42 '') = fence)"
    by (simp add: str_def lbracket_def lcurly_def rbracket_def rcurly_def fenceJson_def fence_def)
  have t2: "trim (replaceFences (str ''```json 42```'')) = str ''42''"
    by code_simp
  have t3: "trim (str '' 42 '') = str ''42''"
    by code_simp
  have p: "jsonParseTable (str ''[1,2]'') = Some (JArray [JNumber (NumFinite 1), JNumber (NumFinite 2)])"
    by (simp add: jsonParseTable_def str_def)
  from cleanJsonString_extracts [of "str ''[1,2]''" "str ''```json Here it is: ''" "str '' Done. ```''"
      jsonParseTable "str ''```json 42```''"] h1 h2
  have a: "cleanJsonString (str ''```json Here it is: '' @ str ''[1,2]'' @ str '' Done. ```'') = str ''[1,2]''"
    and b: "jsonParseTable (cleanJsonString (str ''```json Here it is: '' @ str ''[1,2]'' @ str '' Done. ```''))
       = jsonParseTable (str ''[1,2]'')"
    and c: "cleanJsonString (str ''```json 42```'') = trim (replaceFences (str ''```json 42```''))"
    by blast+
  from cleanJsonString_extracts [of "str ''[1,2]''" "str ''```json Here it is: ''" "str '' Done. ```''"
      jsonParseTable "str '' 42 ''"] h3
  have d: "cleanJsonString (str '' 42 '') = trim (str '' 42 '')"
    by blast
  show ?thesis
    using a b c d by (simp only: t2 t3 p simp_thms)
qed

text \<open>
  Claim C1 as stated fails in both halves. The text made of three backticks has no
  bracket character, and the result is the empty string, not the trimmed original.
  Commentary that itself contains a bracket moves the start of the extracted substring:
  the result is not the enclosed array.
\<close>

theorem cleanJsonString_counterexample:
  "set (str ''```'') \<inter> {lbracket, rbracket, lcurly, rcurly} = {}
   \<and> cleanJsonString (str ''```'') \<noteq> trim (str ''```'')
   \<and> cleanJsonString (str ''Note [draft]: [1,2]'') = str ''[draft]: [1,2]''
   \<and> cleanJsonString (str ''Note [draft]: [1,2]'') \<noteq> str ''[1,2]''"
proof -
  have "set (str ''```'') \<inter> {lbracket, rbracket, lcurly, rcurly} = {}"
    by (simp add: str_def lbracket_def lcurly_def rbracket_def rcurly_def)
  moreover have "cleanJsonString (str ''```'') = []"
    by code_simp
  moreover have "trim (str ''```'') = str ''```''"
    by code_simp
  moreover have "cleanJsonString (str ''Note [draft]: [1,2]'') = str ''[draft]: [1,2]''"
    by code_simp
  moreover have "str ''[draft]: [1,2]'' \<noteq> str ''[1,2]''" "str ''```'' \<noteq> []"
    by (simp_all add: str_def)
  ultimately show ?thesis
    by simp
qed

section \<open>Facts about the AI gateway\<close>

lemma getProp_Inl: "getProp v k = Inl e \<longleftrightarrow> v = JNull \<and> e = TypeError"
  by (cases v) auto

lemma getProp_not_null: "v \<noteq> JNull \<Longrightarrow> \<exists>x. getProp v k = Inr x"
  by (cases v) auto

lemma parseResume_null:
  "parse (cleanJsonString text) = Some JNull \<Longrightarrow> parseResume parse resume (Inr text) = Inl resumeError"
  by (simp add: parseResume_def)

lemma parseResume_syntax:
  "parse (cleanJsonString text) = None \<Longrightarrow> parseResume parse resume (Inr text) = Inl resumeError"
  by (simp add: parseResume_def)

lemma parseResume_value:
  assumes "parse (cleanJsonString text) = Some v" "v \<noteq> JNull"
    and "getProp v (str ''skills'') = Inr sk" "getProp v (str ''educationLevel'') = Inr ed"
    and "getProp v (str ''projects'') = Inr pr"
  shows "parseResume parse resume (Inr text) =
         Inr \<lparr>rawFile.name = rawFile.name resume, mimeType = mimeType resume, data = data resume,
              skills = orElse sk (JArray []),
              educationLevel = orElse ed (JString (str ''Not found'')),
              projects = orElse pr (JArray [])\<rparr>"
  using assms by (simp add: parseResume_def)

text \<open>
  Claim C6, as the code has it. For a response with text \<open>text\<close>, \<open>parseResume\<close> throws its
  error exactly when the cleaned text does not parse or parses to \<^verbatim>\<open>null\<close>. For every other
  parsed value it returns a record that carries the name, type and data of the upload;
  each of the three extracted fields is the default (the empty list, or the string
  \<^verbatim>\<open>Not found\<close>) when the parsed value has no such property or a falsy one, and the value of
  the property, whatever its type, otherwise.
\<close>

theorem parseResume_outcome:
  "(parseResume parse resume (Inr text) = Inl resumeError \<longleftrightarrow>
      parse (cleanJsonString text) = None \<or> parse (cleanJsonString text) = Some JNull)
   \<and> (\<forall>v. parse (cleanJsonString text) = Some v \<and> v \<noteq> JNull \<longrightarrow>
        (\<exists>r. parseResume parse resume (Inr text) = Inr r \<and>
             rawFile.name r = rawFile.name resume \<and> mimeType r = mimeType resume \<and>
             data r = data resume \<and>
             (getProp v (str ''skills'') = Inr None \<longrightarrow> skills r = JArray []) \<and>
             (getProp v (str ''educationLevel'') = Inr None \<longrightarrow>
                educationLevel r = JString (str ''Not found'')) \<and>
             (getProp v (str ''projects'') = Inr None \<longrightarrow> projects r = JArray []) \<and>
             (\<forall>x. getProp v (str ''skills'') = Inr (Some x) \<longrightarrow>
                skills r = (if truthy x then x else JArray [])) \<and>
             (\<forall>x. getProp v (str ''educationLevel'') = Inr (Some x) \<longrightarrow>
                educationLevel r = (if truthy x then x else JString (str ''Not found''))) \<and>
             (\<forall>x. getProp v (str ''projects'') = Inr (Some x) \<longrightarrow>
                projects r = (if truthy x then x else JArray []))))"
proof (intro conjI allI impI)
  show "parseResume parse resume (Inr text) = Inl resumeError \<longleftrightarrow>
      parse (cleanJsonString text) = None \<or> parse (cleanJsonString text) = Some JNull"
  proof (cases "parse (cleanJsonString text)")
    case None
    then show ?thesis by (simp add: parseResume_syntax)
  next
    case (Some v)
    show ?thesis
    proof (cases "v = JNull")
      case True
      then show ?thesis using Some by (simp add: parseResume_null)
    next
      case False
      obtain sk ed pr where "getProp v (str ''skills'') = Inr sk"
        "getProp v (str ''educationLevel'') = Inr ed" "getProp v (str ''projects'') = Inr pr"
        using getProp_not_null [OF False] by meson
      then show ?thesis
        using Some False by (simp add: parseResume_value)
    qed
  qed
next
  fix v
  assume a: "parse (cleanJsonString text) = Some v \<and> v \<noteq> JNull"
  then have nn: "v \<noteq> JNull" by simp
  obtain sk ed pr where g: "getProp v (str ''skills'') = Inr sk"
    "getProp v (str ''educationLevel'') = Inr ed" "getProp v (str ''projects'') = Inr pr"
    using getProp_not_null [OF nn] by meson
  show "\<exists>r. parseResume parse resume (Inr text) = Inr r \<and>
             rawFile.name r = rawFile.name resume \<and> mimeType r = mimeType resume \<and>
             data r = data resume \<and>
             (getProp v (str ''skills'') = Inr None \<longrightarrow> skills r = JArray []) \<and>
             (getProp v (str ''educationLevel'') = Inr None \<longrightarrow>
                educationLevel r = JString (str ''Not found'')) \<and>
             (getProp v (str ''projects'') = Inr None \<longrightarrow> projects r = JArray []) \<and>
             (\<forall>x. getProp v (str ''skills'') = Inr (Some x) \<longrightarrow>
                skills r = (if truthy x then x else JArray [])) \<and>
             (\<forall>x. getProp v (str ''educationLevel'') = Inr (Some x) \<longrightarrow>
                educationLevel r = (if truthy x then x else JString (str ''Not found''))) \<and>
             (\<forall>x. getProp v (str ''projects'') = Inr (Some x) \<longrightarrow>
                projects r = (if truthy x then x else JArray []))"
    using a g by (simp add: parseResume_value [OF _ nn g] orElse_def)
qed

lemma clean_samples:
  "cleanJsonString (str ''null'') = str ''null''"
  "cleanJsonString (str ''Here: {} '') = str ''{}''"
  "cleanJsonString (str ''{}'') = str ''{}''"
  "cleanJsonString (str ''```json [] ```'') = str ''[]''"
  by code_simp+

lemma clean_samples_quoted:
  \<open>cleanJsonString (str ''{"skills":true}'') = str ''{"skills":true}''\<close>
  \<open>cleanJsonString (str ''[{"name":"Ada"}]'') = str ''[{"name":"Ada"}]''\<close>
  \<open>cleanJsonString (str ''{"subject":"Hello","body":"Dear Ada"}'') = str ''{"subject":"Hello","body":"Dear Ada"}''\<close>
  \<open>cleanJsonString (str ''[{"name":"Ada","title":"Prof","researchInterests":"Logic","email":"ada@u.edu"}]'')
     = str ''[{"name":"Ada","title":"Prof","researchInterests":"Logic","email":"ada@u.edu"}]''\<close>
  \<open>cleanJsonString (str ''[{"name":"Ann","title":"Dr","researchInterests":"Sets","email":""}]'')
     = str ''[{"name":"Ann","title":"Dr","researchInterests":"Sets","email":""}]''\<close>
  \<open>cleanJsonString (str ''[{"name":"Al","title":"Dr","researchInterests":"Sets","email":5}]'')
     = str ''[{"name":"Al","title":"Dr","researchInterests":"Sets","email":5}]''\<close>
  by code_simp+

lemma parse_samples:
  "jsonParseTable (str ''null'') = Some JNull"
  "jsonParseTable (str ''{}'') = Some (JObject [])"
  "jsonParseTable (str ''[]'') = Some (JArray [])"
  \<open>jsonParseTable (str ''{"skills":true}'') = Some (JObject [(str ''skills'', JBool True)])\<close>
  \<open>jsonParseTable (str ''[{"name":"Ada"}]'') = Some (JArray [JObject [(str ''name'', JString (str ''Ada''))]])\<close>
  \<open>jsonParseTable (str ''{"subject":"Hello","body":"Dear Ada"}'') =
     Some (JObject [(str ''subject'', JString (str ''Hello'')), (str ''body'', JString (str ''Dear Ada''))])\<close>
  \<open>jsonParseTable (str ''[{"name":"Ada","title":"Prof","researchInterests":"Logic","email":"ada@u.edu"}]'') =
     Some (JArray [JObject [(str ''name'', JString (str ''Ada'')),
                                    (str ''title'', JString (str ''Prof'')),
                                    (str ''researchInterests'', JString (str ''Logic'')),
                                    (str ''email'', JString (str ''ada@u.edu''))]])\<close>
  \<open>jsonParseTable (str ''[{"name":"Ann","title":"Dr","researchInterests":"Sets","email":""}]'') =
     Some (JArray [JObject [(str ''name'', JString (str ''Ann'')),
                                    (str ''title'', JString (str ''Dr'')),
                                    (str ''researchInterests'', JString (str ''Sets'')),
                                    (str ''email'', JString [])]])\<close>
  \<open>jsonParseTable (str ''[{"name":"Al","title":"Dr","researchInterests":"Sets","email":5}]'') =
     Some (JArray [JObject [(str ''name'', JString (str ''Al'')),
                                    (str ''title'', JString (str ''Dr'')),
                                    (str ''researchInterests'', JString (str ''Sets'')),
                                    (str ''email'', JNumber (NumFinite 5))]])\<close>
  by (simp_all add: jsonParseTable_def str_def)

text \<open>
  Two instances: a response whose object has none of the three properties gives the
  record with all three defaults, and the response \<^verbatim>\<open>null\<close> is a failure.
\<close>

theorem parseResume_outcome_witness:
  "jsonParseTable (cleanJsonString (str ''Here: {} '')) = Some (JObject [])
   \<and> parseResume jsonParseTable sampleFile (Inr (str ''Here: {} '')) = Inr sampleResume
   \<and> jsonParseTable (cleanJsonString (str ''null'')) = Some JNull
   \<and> parseResume jsonParseTable sampleFile (Inr (str ''null'')) = Inl resumeError"
proof -
  have p: "jsonParseTable (cleanJsonString (str ''Here: {} '')) = Some (JObject [])"
    by (simp only: clean_samples parse_samples)
  have q: "jsonParseTable (cleanJsonString (str ''null'')) = Some JNull"
    by (simp only: clean_samples parse_samples)
  from parseResume_outcome [of jsonParseTable sampleFile "str ''Here: {} ''"] p
  obtain r where r: "parseResume jsonParseTable sampleFile (Inr (str ''Here: {} '')) = Inr r"
    "rawFile.name r = rawFile.name sampleFile" "mimeType r = mimeType sampleFile"
    "data r = data sampleFile"
    "getProp (JObject []) (str ''skills'') = Inr None \<longrightarrow> skills r = JArray []"
    "getProp (JObject []) (str ''educationLevel'') = Inr None \<longrightarrow>
                educationLevel r = JString (str ''Not found'')"
    "getProp (JObject []) (str ''projects'') = Inr None \<longrightarrow> projects r = JArray []"
    by blast
  then have "r = sampleResume"
    by (cases r) (simp add: sampleResume_def sampleFile_def)
  moreover from parseResume_outcome [of jsonParseTable sampleFile "str ''null''"] q
  have "parseResume jsonParseTable sampleFile (Inr (str ''null'')) = Inl resumeError"
    by blast
  ultimately show ?thesis
    using p q r(1) by simp
qed

text \<open>
  Claim C6 as stated fails. The response \<^verbatim>\<open>null\<close> is parseable JSON, and the operation
  throws all the same, because reading a property of \<^verbatim>\<open>null\<close> throws inside the \<^verbatim>\<open>try\<close> block.
  A response whose \<^verbatim>\<open>skills\<close> property is \<^verbatim>\<open>true\<close> gives a record whose \<^verbatim>\<open>skills\<close> is that
  boolean, not a list.
\<close>

theorem parseResume_counterexample:
  \<open>jsonParseTable (cleanJsonString (str ''null'')) = Some JNull
   \<and> parseResume jsonParseTable sampleFile (Inr (str ''null'')) = Inl resumeError
   \<and> map_sum id skills (parseResume jsonParseTable sampleFile (Inr (str ''{"skills":true}'')))
       = Inr (JBool True)\<close>
  by (simp add: parseResume_def clean_samples clean_samples_quoted parse_samples orElse_def)

lemma generateEmailForContact_value:
  assumes "parse (cleanJsonString text) = Some v" "v \<noteq> JNull"
    and "getProp v (str ''subject'') = Inr s" "getProp v (str ''body'') = Inr b"
  shows "generateEmailForContact parse contact (Inr text) =
         Inr \<lparr>to = email contact, subject = s, body = b\<rparr>"
  using assms by (simp add: generateEmailForContact_def)

lemma generateEmailForContact_to:
  "generateEmailForContact parse contact reply = Inr d \<Longrightarrow> to d = email contact"
  by (auto simp: generateEmailForContact_def split: sum.splits option.splits)

text \<open>
  Claim C2, as the code has it. For a response with text \<open>text\<close>, \<open>generateEmailForContact\<close>
  rejects with its translation error exactly when the cleaned text does not parse or
  parses to \<^verbatim>\<open>null\<close>; every other parsed value gives a record whose subject and body are
  the properties of that value (\<^verbatim>\<open>undefined\<close> when it has none). Whenever the operation
  succeeds, the recipient of the record is the \<^verbatim>\<open>email\<close> field of the contact, and a
  failed request is passed on.
\<close>

theorem generateEmailForContact_outcome:
  "(generateEmailForContact parse contact (Inr text) = Inl emailError \<longleftrightarrow>
      parse (cleanJsonString text) = None \<or> parse (cleanJsonString text) = Some JNull)
   \<and> (\<forall>v. parse (cleanJsonString text) = Some v \<and> v \<noteq> JNull \<longrightarrow>
        (\<exists>s b. getProp v (str ''subject'') = Inr s \<and> getProp v (str ''body'') = Inr b \<and>
               generateEmailForContact parse contact (Inr text) =
               Inr \<lparr>to = email contact, subject = s, body = b\<rparr>))
   \<and> (\<forall>d. generateEmailForContact parse contact reply = Inr d \<longrightarrow> to d = email contact)
   \<and> (\<forall>e. reply = Inl e \<longrightarrow> generateEmailForContact parse contact reply = Inl e)"
proof (intro conjI allI impI)
  show "generateEmailForContact parse contact (Inr text) = Inl emailError \<longleftrightarrow>
      parse (cleanJsonString text) = None \<or> parse (cleanJsonString text) = Some JNull"
  proof (cases "parse (cleanJsonString text)")
    case None
    then show ?thesis by (simp add: generateEmailForContact_def)
  next
    case (Some v)
    show ?thesis
    proof (cases "v = JNull")
      case True
      then show ?thesis using Some by (simp add: generateEmailForContact_def)
    next
      case False
      obtain s b where "getProp v (str ''subject'') = Inr s" "getProp v (str ''body'') = Inr b"
        using getProp_not_null [OF False] by meson
      then show ?thesis
        using Some False by (simp add: generateEmailForContact_value)
    qed
  qed
next
  fix v
  assume a: "parse (cleanJsonString text) = Some v \<and> v \<noteq> JNull"
  then have nn: "v \<noteq> JNull" by simp
  obtain s b where g: "getProp v (str ''subject'') = Inr s" "getProp v (str ''body'') = Inr b"
    using getProp_not_null [OF nn] by meson
  then show "\<exists>s b. getProp v (str ''subject'') = Inr s \<and> getProp v (str ''body'') = Inr b \<and>
               generateEmailForContact parse contact (Inr text) =
               Inr \<lparr>to = email contact, subject = s, body = b\<rparr>"
    using a generateEmailForContact_value by blast
next
  fix d
  assume "generateEmailForContact parse contact reply = Inr d"
  then show "to d = email contact" by (rule generateEmailForContact_to)
next
  fix e
  assume "reply = Inl e"
  then show "generateEmailForContact parse contact reply = Inl e"
    by (simp add: generateEmailForContact_def)
qed

text \<open>
  Instances: a response with both fields, the response \<^verbatim>\<open>null\<close>, and a rejected request.
\<close>

theorem generateEmailForContact_outcome_witness:
  \<open>generateEmailForContact jsonParseTable ada (Inr (str ''{"subject":"Hello","body":"Dear Ada"}''))
     = Inr \<lparr>to = Some (JString (str ''ada@u.edu'')), subject = Some (JString (str ''Hello'')),
            body = Some (JString (str ''Dear Ada''))\<rparr>
   \<and> generateEmailForContact jsonParseTable ada (Inr (str ''null'')) = Inl emailError
   \<and> generateEmailForContact jsonParseTable ada (Inl Rejected) = Inl Rejected\<close>
proof -
  let ?v = "JObject [(str ''subject'', JString (str ''Hello'')), (str ''body'', JString (str ''Dear Ada''))]"
  have p: \<open>jsonParseTable (cleanJsonString (str ''{"subject":"Hello","body":"Dear Ada"}'')) = Some ?v\<close>
    by (simp only: clean_samples_quoted parse_samples)
  have q: "jsonParseTable (cleanJsonString (str ''null'')) = Some JNull"
    by (simp only: clean_samples parse_samples)
  have g: "getProp ?v (str ''subject'') = Inr (Some (JString (str ''Hello'')))"
    "getProp ?v (str ''body'') = Inr (Some (JString (str ''Dear Ada'')))"
    by (simp_all add: str_def)
  from generateEmailForContact_outcome [of jsonParseTable ada \<open>str ''{"subject":"Hello","body":"Dear Ada"}''\<close>] p
  obtain s b where "getProp ?v (str ''subject'') = Inr s" "getProp ?v (str ''body'') = Inr b"
    \<open>generateEmailForContact jsonParseTable ada (Inr (str ''{"subject":"Hello","body":"Dear Ada"}''))
      = Inr \<lparr>to = email ada, subject = s, body = b\<rparr>\<close>
    by blast
  then have a: \<open>generateEmailForContact jsonParseTable ada (Inr (str ''{"subject":"Hello","body":"Dear Ada"}''))
     = Inr \<lparr>to = Some (JString (str ''ada@u.edu'')), subject = Some (JString (str ''Hello'')),
            body = Some (JString (str ''Dear Ada''))\<rparr>\<close>
    using g by (simp add: ada_def)
  from generateEmailForContact_outcome [of jsonParseTable ada "str ''null''"] q
  have b: "generateEmailForContact jsonParseTable ada (Inr (str ''null'')) = Inl emailError"
    by blast
  from generateEmailForContact_outcome [of jsonParseTable ada _ "Inl Rejected"]
  have c: "generateEmailForContact jsonParseTable ada (Inl Rejected) = Inl Rejected"
    by blast
  show ?thesis using a b c by simp
qed

text \<open>
  Claim C2 as stated fails: the response \<^verbatim>\<open>{}\<close> parses to an object with neither a subject
  nor a body, and the operation succeeds with both fields undefined.
\<close>

theorem generateEmailForContact_counterexample:
  "jsonParseTable (cleanJsonString (str ''{}'')) = Some (JObject [])
   \<and> generateEmailForContact jsonParseTable ada (Inr (str ''{}''))
       = Inr \<lparr>to = Some (JString (str ''ada@u.edu'')), subject = None, body = None\<rparr>"
  by (simp add: generateEmailForContact_def clean_samples parse_samples ada_def)

lemma looksLikeContact_iff: "looksLikeContact item = Inr True \<longleftrightarrow> exposes item"
  by (cases item) (auto simp: looksLikeContact_def exposes_def split: bool.splits)

lemma every_looksLikeContact_iff:
  "every looksLikeContact items = Inr True \<longleftrightarrow> (\<forall>item\<in>set items. exposes item)"
proof (induction items)
  case Nil
  then show ?case by simp
next
  case (Cons item items)
  show ?case
  proof (cases "looksLikeContact item")
    case (Inl e)
    then have "\<not> exposes item"
      using looksLikeContact_iff [of item] by simp
    then show ?thesis using Inl by simp
  next
    case (Inr b)
    then show ?thesis
      using Cons.IH looksLikeContact_iff [of item] by (cases b) auto
  qed
qed

lemma findContacts_array:
  "parse (cleanJsonString text) = Some (JArray items) \<Longrightarrow>
   findContacts parse (Inr text) =
     (if \<forall>item\<in>set items. exposes item then Inr (map asContact items) else Inl contactsError)"
  using every_looksLikeContact_iff [of items]
  by (cases "every looksLikeContact items"; cases items)
     (auto simp: findContacts_def split: bool.splits)

lemma findContacts_no_array:
  "\<forall>items. parse (cleanJsonString text) \<noteq> Some (JArray items) \<Longrightarrow>
   findContacts parse (Inr text) = Inl contactsError"
  by (auto simp: findContacts_def split: option.splits json.splits)

lemma handleFindContacts_failure:
  "findContacts parse reply = Inl e \<Longrightarrow>
   currentStep (fst (handleFindContacts parse reply st)) = currentStep st \<and>
   contacts (fst (handleFindContacts parse reply st)) = contacts st \<and>
   selectedContacts (fst (handleFindContacts parse reply st)) = selectedContacts st \<and>
   error (fst (handleFindContacts parse reply st)) \<noteq> None"
  by (simp add: handleFindContacts_def split: option.splits)

text \<open>
  Claim C5. For a response with text \<open>text\<close>: when the cleaned text parses to the empty
  array, \<open>findContacts\<close> returns the empty list; when it parses to a non-empty array with
  an element that does not expose the three mandatory fields, or does not parse to an
  array at all, \<open>findContacts\<close> throws its error; when every element exposes them the
  result is the parsed array. Whenever \<open>findContacts\<close> fails, \<open>handleFindContacts\<close> reports
  an error and leaves the step, the contacts and the selection as they were.
\<close>

theorem findContacts_outcome:
  "(parse (cleanJsonString text) = Some (JArray []) \<longrightarrow> findContacts parse (Inr text) = Inr [])
   \<and> (parse (cleanJsonString text) = Some (JArray items) \<and> items \<noteq> [] \<and>
        (\<exists>item\<in>set items. \<not> exposes item)
        \<longrightarrow> findContacts parse (Inr text) = Inl contactsError)
   \<and> ((\<forall>xs. parse (cleanJsonString text) \<noteq> Some (JArray xs))
        \<longrightarrow> findContacts parse (Inr text) = Inl contactsError)
   \<and> (parse (cleanJsonString text) = Some (JArray items) \<and> (\<forall>item\<in>set items. exposes item)
        \<longrightarrow> findContacts parse (Inr text) = Inr (map asContact items))
   \<and> (\<forall>e. findContacts parse reply = Inl e \<longrightarrow>
        currentStep (fst (handleFindContacts parse reply st)) = currentStep st \<and>
        contacts (fst (handleFindContacts parse reply st)) = contacts st \<and>
        selectedContacts (fst (handleFindContacts parse reply st)) = selectedContacts st \<and>
        error (fst (handleFindContacts parse reply st)) \<noteq> None)"
proof (intro conjI allI impI)
  assume "parse (cleanJsonString text) = Some (JArray [])"
  then show "findContacts parse (Inr text) = Inr []"
    by (simp add: findContacts_array)
next
  assume "parse (cleanJsonString text) = Some (JArray items) \<and> items \<noteq> [] \<and>
        (\<exists>item\<in>set items. \<not> exposes item)"
  then show "findContacts parse (Inr text) = Inl contactsError"
    by (auto simp: findContacts_array)
next
  assume "\<forall>xs. parse (cleanJsonString text) \<noteq> Some (JArray xs)"
  then show "findContacts parse (Inr text) = Inl contactsError"
    by (rule findContacts_no_array)
next
  assume "parse (cleanJsonString text) = Some (JArray items) \<and> (\<forall>item\<in>set items. exposes item)"
  then show "findContacts parse (Inr text) = Inr (map asContact items)"
    by (simp add: findContacts_array)
next
  fix e
  assume "findContacts parse reply = Inl e"
  then show "currentStep (fst (handleFindContacts parse reply st)) = currentStep st"
    "contacts (fst (handleFindContacts parse reply st)) = contacts st"
    "selectedContacts (fst (handleFindContacts parse reply st)) = selectedContacts st"
    "error (fst (handleFindContacts parse reply st)) \<noteq> None"
    using handleFindContacts_failure by blast+
qed

lemma asContact_ada:
  "asContact (JObject [(str ''name'', JString (str ''Ada'')),
                       (str ''title'', JString (str ''Prof'')),
                       (str ''researchInterests'', JString (str ''Logic'')),
                       (str ''email'', JString (str ''ada@u.edu''))]) = ada"
  by (simp add: asContact_def ownProp_def ada_def str_def)

text \<open>
  Instances of each part: an empty array inside fences, an array whose element lacks two
  of the fields, the value \<^verbatim>\<open>null\<close>, an array with one complete contact, and the handler
  started on the failing response \<^verbatim>\<open>null\<close> with all inputs present.
\<close>

theorem findContacts_outcome_witness:
  \<open>findContacts jsonParseTable (Inr (str ''```json [] ```'')) = Inr []
   \<and> findContacts jsonParseTable (Inr (str ''[{"name":"Ada"}]'')) = Inl contactsError
   \<and> findContacts jsonParseTable (Inr (str ''null'')) = Inl contactsError
   \<and> findContacts jsonParseTable
        (Inr (str ''[{"name":"Ada","title":"Prof","researchInterests":"Logic","email":"ada@u.edu"}]''))
       = Inr [ada]
   \<and> currentStep (fst (handleFindContacts jsonParseTable (Inr (str ''null'')) readyState)) = Input
   \<and> error (fst (handleFindContacts jsonParseTable (Inr (str ''null'')) readyState)) \<noteq> None\<close>
proof -
  let ?one = "JObject [(str ''name'', JString (str ''Ada''))]"
  let ?full = "JObject [(str ''name'', JString (str ''Ada'')),
                       (str ''title'', JString (str ''Prof'')),
                       (str ''researchInterests'', JString (str ''Logic'')),
                       (str ''email'', JString (str ''ada@u.edu''))]"
  have p1: "jsonParseTable (cleanJsonString (str ''```json [] ```'')) = Some (JArray [])"
    by (simp only: clean_samples parse_samples)
  have p2a: \<open>jsonParseTable (cleanJsonString (str ''[{"name":"Ada"}]'')) = Some (JArray [?one])\<close>
    by (simp only: clean_samples_quoted parse_samples)
  have p2b: "[?one] \<noteq> [] \<and> (\<exists>item\<in>set [?one]. \<not> exposes item)"
    by (simp add: exposes_def str_def)
  note p2 = conjI [OF p2a p2b]
  have p3: "\<forall>xs. jsonParseTable (cleanJsonString (str ''null'')) \<noteq> Some (JArray xs)"
    by (simp add: clean_samples parse_samples)
  have p4: \<open>jsonParseTable (cleanJsonString
      (str ''[{"name":"Ada","title":"Prof","researchInterests":"Logic","email":"ada@u.edu"}]''))
      = Some (JArray [?full])\<close>
    by (simp only: clean_samples_quoted parse_samples)
  have p4b: "\<forall>item\<in>set [?full]. exposes item"
    by (simp add: exposes_def str_def)
  have a: "findContacts jsonParseTable (Inr (str ''```json [] ```'')) = Inr []"
    using findContacts_outcome [of jsonParseTable "str ''```json [] ```''"] p1 by blast
  have b: \<open>findContacts jsonParseTable (Inr (str ''[{"name":"Ada"}]'')) = Inl contactsError\<close>
    using findContacts_outcome [of jsonParseTable \<open>str ''[{"name":"Ada"}]''\<close> "[?one]"] p2 by blast
  have c: "findContacts jsonParseTable (Inr (str ''null'')) = Inl contactsError"
    using findContacts_outcome [of jsonParseTable "str ''null''"] p3 by blast
  have d: \<open>findContacts jsonParseTable
        (Inr (str ''[{"name":"Ada","title":"Prof","researchInterests":"Logic","email":"ada@u.edu"}]''))
       = Inr (map asContact [?full])\<close>
    using findContacts_outcome [of jsonParseTable
        \<open>str ''[{"name":"Ada","title":"Prof","researchInterests":"Logic","email":"ada@u.edu"}]''\<close> "[?full]"] p4 p4b
    by blast
  have e: "currentStep (fst (handleFindContacts jsonParseTable (Inr (str ''null'')) readyState))
             = currentStep readyState
           \<and> error (fst (handleFindContacts jsonParseTable (Inr (str ''null'')) readyState)) \<noteq> None"
    using findContacts_outcome [of jsonParseTable _ _ "Inr (str ''null'')" readyState] c by blast
  have s: "currentStep readyState = Input"
    by (simp add: readyState_def initialState_def)
  show ?thesis
    using a b c d e s by (simp add: asContact_ada)
qed

text \<open>
  Claim C9. When the resume facts are absent, or the university is empty, or the
  department is empty, \<open>handleFindContacts\<close> only sets the error message: every other field
  of the state, the current step among them, is as before, and the handler makes no call
  (the discovery operation of the gateway is not invoked, whatever the service would have
  answered).
\<close>

theorem handleFindContacts_guard:
  "resumeData st = None \<or> university st = [] \<or> department st = [] \<Longrightarrow>
   handleFindContacts parse reply st = (st\<lparr>error := Some guardMessage\<rparr>, []) \<and>
   currentStep (fst (handleFindContacts parse reply st)) = currentStep st \<and>
   error (fst (handleFindContacts parse reply st)) = Some guardMessage \<and>
   snd (handleFindContacts parse reply st) = []"
  by (auto simp: handleFindContacts_def split: option.splits)

text \<open>
  Instances: the initial state, which has no resume, and a state with a resume and a
  university but an empty department.
\<close>

theorem handleFindContacts_guard_witness:
  "resumeData initialState = None
   \<and> handleFindContacts jsonParseTable (Inr (str ''[]'')) initialState
       = (initialState\<lparr>error := Some guardMessage\<rparr>, [])
   \<and> department (readyState\<lparr>department := []\<rparr>) = []
   \<and> currentStep (fst (handleFindContacts jsonParseTable (Inr (str ''[]''))
                          (readyState\<lparr>department := []\<rparr>))) = Input
   \<and> snd (handleFindContacts jsonParseTable (Inr (str ''[]'')) (readyState\<lparr>department := []\<rparr>)) = []"
proof -
  have h1: "resumeData initialState = None \<or> university initialState = [] \<or> department initialState = []"
    by (simp add: initialState_def)
  have h2: "resumeData (readyState\<lparr>department := []\<rparr>) = None \<or>
            university (readyState\<lparr>department := []\<rparr>) = [] \<or>
            department (readyState\<lparr>department := []\<rparr>) = []"
    by simp
  have s: "currentStep (readyState\<lparr>department := []\<rparr>) = Input" "resumeData initialState = None"
    by (simp_all add: readyState_def initialState_def)
  show ?thesis
    using handleFindContacts_guard [OF h1, of jsonParseTable "Inr (str ''[]'')"]
      handleFindContacts_guard [OF h2, of jsonParseTable "Inr (str ''[]'')"] s
    by simp
qed

section \<open>Facts about the handlers\<close>

text \<open>
  Claim C10. For an index within the list, \<open>handleEmailChange\<close> succeeds; the new list has
  the same length, the email at the index has the new body and its old recipient,
  subject and sent flag, every email at another index is the old one, and no other field
  of the state changes.
\<close>

theorem handleEmailChange_frame:
  "0 \<le> index \<and> index < int (length (emails st)) \<Longrightarrow>
   \<exists>st'. handleEmailChange index newBody st = Inr st' \<and>
     length (emails st') = length (emails st) \<and>
     body (emails st' ! nat index) = Some (JString newBody) \<and>
     to (emails st' ! nat index) = to (emails st ! nat index) \<and>
     subject (emails st' ! nat index) = subject (emails st ! nat index) \<and>
     sent (emails st' ! nat index) = sent (emails st ! nat index) \<and>
     (\<forall>j<length (emails st). j \<noteq> nat index \<longrightarrow> emails st' ! j = emails st ! j) \<and>
     st' = st\<lparr>emails := emails st'\<rparr>"
proof -
  assume a: "0 \<le> index \<and> index < int (length (emails st))"
  then have n: "nat index < length (emails st)" by linarith
  show ?thesis
    using a n by (simp add: handleEmailChange_def)
qed

text \<open>An instance: the body of the second of two emails is replaced.\<close>

theorem handleEmailChange_frame_witness:
  "0 \<le> (1::int) \<and> (1::int) < int (length (emails reviewState))
   \<and> handleEmailChange 1 (str ''Dear Prof'') reviewState
       = Inr (reviewState\<lparr>emails := [otherMail, helloMail\<lparr>body := Some (JString (str ''Dear Prof''))\<rparr>]\<rparr>)"
proof -
  have h: "0 \<le> (1::int) \<and> (1::int) < int (length (emails reviewState))"
    by (simp add: reviewState_def)
  from handleEmailChange_frame [OF h, of "str ''Dear Prof''"]
  obtain st' where s: "handleEmailChange 1 (str ''Dear Prof'') reviewState = Inr st'"
    "length (emails st') = length (emails reviewState)"
    "body (emails st' ! nat 1) = Some (JString (str ''Dear Prof''))"
    "to (emails st' ! nat 1) = to (emails reviewState ! nat 1)"
    "subject (emails st' ! nat 1) = subject (emails reviewState ! nat 1)"
    "sent (emails st' ! nat 1) = sent (emails reviewState ! nat 1)"
    "\<forall>j<length (emails reviewState). j \<noteq> nat 1 \<longrightarrow> emails st' ! j = emails reviewState ! j"
    "st' = reviewState\<lparr>emails := emails st'\<rparr>"
    by blast
  have e: "emails reviewState = [otherMail, helloMail]"
    by (simp add: reviewState_def)
  obtain a b where ab: "emails st' = [a, b]"
    using s(2) e by (cases "emails st'"; cases "tl (emails st')"; cases "tl (tl (emails st'))") auto
  have "a = otherMail" using s(7) e ab by auto
  moreover have "b = helloMail\<lparr>body := Some (JString (str ''Dear Prof''))\<rparr>"
    using s(3-6) e ab by (cases b) (simp add: helloMail_def)
  ultimately have "st' = reviewState\<lparr>emails := [otherMail, helloMail\<lparr>body := Some (JString (str ''Dear Prof''))\<rparr>]\<rparr>"
    using s(8) ab by simp
  then show ?thesis using h s(1) by simp
qed

lemma promiseAll_map_Inr: "promiseAll (map Inr vs) = Inr vs"
  by (induction vs) simp_all

lemma promiseAll_InrD: "promiseAll rs = Inr vs \<Longrightarrow> rs = map Inr vs"
proof (induction rs arbitrary: vs)
  case Nil
  then show ?case by simp
next
  case (Cons r rs)
  from Cons.prems obtain v ws where "r = Inr v" "promiseAll rs = Inr ws" "vs = v # ws"
    by (auto split: sum.splits)
  then show ?case
    using Cons.IH [of ws] by simp
qed

lemma promiseAll_InlD: "promiseAll rs = Inl e \<Longrightarrow> \<exists>r\<in>set rs. \<exists>e'. r = Inl e'"
proof (induction rs)
  case Nil
  then show ?case by simp
next
  case (Cons r rs)
  show ?case
  proof (cases r)
    case (Inl e')
    then show ?thesis by simp
  next
    case (Inr v)
    then have "promiseAll rs = Inl e"
      using Cons.prems by (simp split: sum.splits)
    then show ?thesis
      using Cons.IH by simp
  qed
qed

lemma length_emailPromises:
  "length (emailPromises parse replies st) = length (contactsToEmail st)"
  by (simp add: emailPromises_def)

lemma nth_emailPromises:
  "i < length (contactsToEmail st) \<Longrightarrow>
   emailPromises parse replies st ! i =
   generateEmailForContact parse (contactsToEmail st ! i) (replies i)"
  by (simp add: emailPromises_def nth_enumerate_eq)

lemma hasEmail_iff: "hasEmail p \<longleftrightarrow> (\<exists>v. email p = Some v \<and> v \<noteq> JNull \<and> truthy v)"
  by (cases "email p") (auto simp: hasEmail_def)

lemma contactsToEmail_explicit:
  "contactsToEmail st =
     map snd (filter (\<lambda>(i, p). (\<exists>v. email p = Some v \<and> v \<noteq> JNull \<and> truthy v) \<and>
                              emailElement i p \<in> selectedContacts st)
                     (enumerate 0 (contacts st)))"
  by (simp add: contactsToEmail_def hasEmail_iff)

lemma contactsToEmail_member:
  assumes "c \<in> set (contactsToEmail st)"
  shows "\<exists>i<length (contacts st). c = contacts st ! i \<and> hasEmail c \<and>
           emailElement i c \<in> selectedContacts st"
proof -
  from assms obtain i where "(i, c) \<in> set (enumerate 0 (contacts st))"
    "hasEmail c \<and> emailElement i c \<in> selectedContacts st"
    by (auto simp: contactsToEmail_def)
  then show ?thesis
    by (auto simp: in_set_enumerate_eq)
qed

lemma contactsToEmail_hasEmail:
  "i < length (contactsToEmail st) \<Longrightarrow> hasEmail (contactsToEmail st ! i)"
  using contactsToEmail_member [of "contactsToEmail st ! i" st] by auto

lemma handleGenerateEmails_guard:
  "resumeData st = None \<or> purpose st = [] \<or> selectedContacts st = {} \<Longrightarrow>
   handleGenerateEmails parse replies st = (st\<lparr>error := Some generateGuardMessage\<rparr>, [])"
  by (auto simp: handleGenerateEmails_def split: option.splits)

lemma handleGenerateEmails_all:
  assumes "resumeData st = Some resume" "purpose st \<noteq> []" "selectedContacts st \<noteq> {}"
    and "promiseAll (emailPromises parse replies st) = Inr ds"
  shows "fst (handleGenerateEmails parse replies st) =
         st\<lparr>error := None, emails := map withStatus ds, currentStep := Review,
            isGeneratingEmails := False\<rparr>"
  using assms by (simp add: handleGenerateEmails_def)

lemma handleGenerateEmails_some_failed:
  assumes "resumeData st = Some resume" "purpose st \<noteq> []" "selectedContacts st \<noteq> {}"
    and "promiseAll (emailPromises parse replies st) = Inl e"
  shows "fst (handleGenerateEmails parse replies st) =
         st\<lparr>error := Some generateFailedMessage, emails := [], isGeneratingEmails := False\<rparr>"
  using assms by (simp add: handleGenerateEmails_def)

lemma truncate_withStatus: "draft.truncate (withStatus d) = d"
  by (simp add: withStatus_def draft.truncate_def)

text \<open>
  Claim C3, as the code has it. Let \<open>cs\<close> be the contacts whose \<^verbatim>\<open>email\<close> is present, not
  \<^verbatim>\<open>null\<close>, truthy and an element of the selection set, in the order of the contact list.
  When the guard of the handler is passed (resume facts present, purpose not empty,
  selection not empty): if the request for every contact of \<open>cs\<close> succeeds, the email list
  afterwards has exactly one record for each contact of \<open>cs\<close>, in that order, namely the
  draft returned for that contact, not sent, with the contact's \<^verbatim>\<open>email\<close>, which is not
  \<^verbatim>\<open>null\<close>, as recipient; the step is Review and no error is shown. If any request fails,
  the email list is empty, one error message is set and the step is unchanged. When the
  guard is not passed, the handler only sets an error message: it makes no call, and the
  step, the email list and every other field are as before.
\<close>

theorem handleGenerateEmails_batch:
  "(resumeData st \<noteq> None \<and> purpose st \<noteq> [] \<and> selectedContacts st \<noteq> {} \<longrightarrow>
     (let cs = map snd (filter (\<lambda>(i, p). (\<exists>v. email p = Some v \<and> v \<noteq> JNull \<and> truthy v) \<and>
                                        emailElement i p \<in> selectedContacts st)
                               (enumerate 0 (contacts st)));
          st' = fst (handleGenerateEmails parse replies st)
      in if \<forall>i<length cs. \<exists>d. generateEmailForContact parse (cs ! i) (replies i) = Inr d
         then length (emails st') = length cs \<and>
              (\<forall>i<length cs.
                 generateEmailForContact parse (cs ! i) (replies i)
                   = Inr (draft.truncate (emails st' ! i)) \<and>
                 \<not> sent (emails st' ! i) \<and>
                 to (emails st' ! i) = email (cs ! i) \<and>
                 (\<exists>v. email (cs ! i) = Some v \<and> v \<noteq> JNull)) \<and>
              currentStep st' = Review \<and> error st' = None
         else emails st' = [] \<and> error st' = Some generateFailedMessage \<and>
              currentStep st' = currentStep st))
   \<and> (resumeData st = None \<or> purpose st = [] \<or> selectedContacts st = {} \<longrightarrow>
        handleGenerateEmails parse replies st = (st\<lparr>error := Some generateGuardMessage\<rparr>, []))"
proof (intro conjI impI)
  assume "resumeData st = None \<or> purpose st = [] \<or> selectedContacts st = {}"
  then show "handleGenerateEmails parse replies st = (st\<lparr>error := Some generateGuardMessage\<rparr>, [])"
    by (rule handleGenerateEmails_guard)
next
  assume a: "resumeData st \<noteq> None \<and> purpose st \<noteq> [] \<and> selectedContacts st \<noteq> {}"
  then obtain resume where g: "resumeData st = Some resume" "purpose st \<noteq> []" "selectedContacts st \<noteq> {}"
    by auto
  let ?cs = "contactsToEmail st"
  let ?ps = "emailPromises parse replies st"
  let ?st' = "fst (handleGenerateEmails parse replies st)"
  have "if \<forall>i<length ?cs. \<exists>d. generateEmailForContact parse (?cs ! i) (replies i) = Inr d
         then length (emails ?st') = length ?cs \<and>
              (\<forall>i<length ?cs.
                 generateEmailForContact parse (?cs ! i) (replies i)
                   = Inr (draft.truncate (emails ?st' ! i)) \<and>
                 \<not> sent (emails ?st' ! i) \<and>
                 to (emails ?st' ! i) = email (?cs ! i) \<and>
                 (\<exists>v. email (?cs ! i) = Some v \<and> v \<noteq> JNull)) \<and>
              currentStep ?st' = Review \<and> error ?st' = None
         else emails ?st' = [] \<and> error ?st' = Some generateFailedMessage \<and>
              currentStep ?st' = currentStep st"
  proof (cases "promiseAll ?ps")
    case (Inr ds)
    then have ps: "?ps = map Inr ds"
      by (rule promiseAll_InrD)
    then have len: "length ds = length ?cs"
      using length_emailPromises [of parse replies st] by simp
    have gen: "generateEmailForContact parse (?cs ! i) (replies i) = Inr (ds ! i)"
      if "i < length ?cs" for i
      using that nth_emailPromises [of i st parse replies] ps len by simp
    have st': "?st' = st\<lparr>error := None, emails := map withStatus ds, currentStep := Review,
            isGeneratingEmails := False\<rparr>"
      using g Inr by (intro handleGenerateEmails_all) simp_all
    have each: "generateEmailForContact parse (?cs ! i) (replies i)
                 = Inr (draft.truncate (emails ?st' ! i)) \<and>
               \<not> sent (emails ?st' ! i) \<and>
               to (emails ?st' ! i) = email (?cs ! i) \<and>
               (\<exists>v. email (?cs ! i) = Some v \<and> v \<noteq> JNull)" if i: "i < length ?cs" for i
    proof -
      have "to (ds ! i) = email (?cs ! i)"
        using gen [OF i] by (rule generateEmailForContact_to)
      moreover have "hasEmail (?cs ! i)"
        using contactsToEmail_hasEmail [OF i] by simp
      then have "\<exists>v. email (?cs ! i) = Some v \<and> v \<noteq> JNull"
        using hasEmail_iff [of "?cs ! i"] by blast
      moreover have "emails ?st' ! i = withStatus (ds ! i)"
        using i len by (simp add: st')
      moreover have "\<not> sent (withStatus (ds ! i))" "to (withStatus (ds ! i)) = to (ds ! i)"
        by (simp_all add: withStatus_def)
      ultimately show ?thesis
        using gen [OF i] by (simp add: truncate_withStatus)
    qed
    then have all: "\<forall>i<length ?cs.
               generateEmailForContact parse (?cs ! i) (replies i)
                 = Inr (draft.truncate (emails ?st' ! i)) \<and>
               \<not> sent (emails ?st' ! i) \<and>
               to (emails ?st' ! i) = email (?cs ! i) \<and>
               (\<exists>v. email (?cs ! i) = Some v \<and> v \<noteq> JNull)"
      by blast
    have cond: "\<forall>i<length ?cs. \<exists>d. generateEmailForContact parse (?cs ! i) (replies i) = Inr d"
      using gen by blast
    have rest: "length (emails ?st') = length ?cs" "currentStep ?st' = Review" "error ?st' = None"
      using len by (simp_all add: st')
    show ?thesis
      by (subst if_P [OF cond]) (intro conjI all rest)
  next
    case (Inl e)
    then obtain r where "r \<in> set ?ps" "\<exists>e. r = Inl e"
      using promiseAll_InlD [of ?ps e] by blast
    then obtain i e' where "i < length ?ps" "?ps ! i = Inl e'"
      unfolding in_set_conv_nth by blast
    then have i: "i < length ?cs" "?ps ! i = Inl e'"
      using length_emailPromises [of parse replies st] by simp_all
    then have "generateEmailForContact parse (?cs ! i) (replies i) = Inl e'"
      using nth_emailPromises [of i st parse replies] by simp
    then have "\<not> (\<exists>d. generateEmailForContact parse (?cs ! i) (replies i) = Inr d)"
      by simp
    then have cond: "\<not> (\<forall>i<length ?cs. \<exists>d. generateEmailForContact parse (?cs ! i) (replies i) = Inr d)"
      using i(1) by blast
    have st': "?st' = st\<lparr>error := Some generateFailedMessage, emails := [], isGeneratingEmails := False\<rparr>"
      using g Inl by (intro handleGenerateEmails_some_failed) simp_all
    have rest: "emails ?st' = []" "error ?st' = Some generateFailedMessage" "currentStep ?st' = currentStep st"
      by (simp_all add: st')
    show ?thesis
      by (subst if_not_P [OF cond]) (intro conjI rest)
  qed
  then show "let cs = map snd (filter (\<lambda>(i, p). (\<exists>v. email p = Some v \<and> v \<noteq> JNull \<and> truthy v) \<and>
                                        emailElement i p \<in> selectedContacts st)
                               (enumerate 0 (contacts st)));
          st' = fst (handleGenerateEmails parse replies st)
      in if \<forall>i<length cs. \<exists>d. generateEmailForContact parse (cs ! i) (replies i) = Inr d
         then length (emails st') = length cs \<and>
              (\<forall>i<length cs.
                 generateEmailForContact parse (cs ! i) (replies i)
                   = Inr (draft.truncate (emails st' ! i)) \<and>
                 \<not> sent (emails st' ! i) \<and>
                 to (emails st' ! i) = email (cs ! i) \<and>
                 (\<exists>v. email (cs ! i) = Some v \<and> v \<noteq> JNull)) \<and>
              currentStep st' = Review \<and> error st' = None
         else emails st' = [] \<and> error st' = Some generateFailedMessage \<and>
              currentStep st' = currentStep st"
    unfolding Let_def contactsToEmail_explicit [symmetric] .
qed

lemma selectState_fields:
  "resumeData selectState = Some sampleResume" "purpose selectState \<noteq> []"
  "selectedContacts selectState \<noteq> {}" "currentStep selectState = Select"
  "contactsToEmail selectState = [ada]"
  by (simp_all add: selectState_def readyState_def initialState_def contactsToEmail_def
        hasEmail_def emailElement_def ada_def bob_def str_def enumerate_eq_zip upt_rec)

lemma hello_draft:
  "generateEmailForContact jsonParseTable ada (Inr helloText)
     = Inr \<lparr>to = Some (JString (str ''ada@u.edu'')), subject = Some (JString (str ''Hello'')),
            body = Some (JString (str ''Dear Ada''))\<rparr>"
proof -
  let ?v = "JObject [(str ''subject'', JString (str ''Hello'')), (str ''body'', JString (str ''Dear Ada''))]"
  have p: "jsonParseTable (cleanJsonString helloText) = Some ?v"
    by (simp only: helloText_def clean_samples_quoted parse_samples)
  have g: "getProp ?v (str ''subject'') = Inr (Some (JString (str ''Hello'')))"
    "getProp ?v (str ''body'') = Inr (Some (JString (str ''Dear Ada'')))"
    by (simp_all add: str_def)
  have "email ada = Some (JString (str ''ada@u.edu''))" by (simp add: ada_def)
  then show ?thesis
    using generateEmailForContact_value [of jsonParseTable helloText ?v, OF p _ g, of ada] by simp
qed

lemma null_draft: "generateEmailForContact jsonParseTable ada (Inr (str ''null'')) = Inl emailError"
  by (simp add: generateEmailForContact_def clean_samples parse_samples)

text \<open>
  Instances on a state with Ada selected and Bob without an address: when the one
  request succeeds the list holds one unsent email to Ada and the step is Review; when
  it fails the list is empty, the error is set and the step is still Select; and with the
  purpose cleared the handler only sets the error of the guard and makes no call.
\<close>

theorem handleGenerateEmails_batch_witness:
  "resumeData selectState \<noteq> None \<and> purpose selectState \<noteq> [] \<and>
   selectedContacts selectState \<noteq> {} \<and> contacts selectState = [ada, bob]
   \<and> length (emails (fst (handleGenerateEmails jsonParseTable helloReplies selectState))) = 1
   \<and> to (emails (fst (handleGenerateEmails jsonParseTable helloReplies selectState)) ! 0)
       = Some (JString (str ''ada@u.edu''))
   \<and> \<not> sent (emails (fst (handleGenerateEmails jsonParseTable helloReplies selectState)) ! 0)
   \<and> currentStep (fst (handleGenerateEmails jsonParseTable helloReplies selectState)) = Review
   \<and> emails (fst (handleGenerateEmails jsonParseTable nullReplies selectState)) = []
   \<and> error (fst (handleGenerateEmails jsonParseTable nullReplies selectState))
       = Some generateFailedMessage
   \<and> currentStep (fst (handleGenerateEmails jsonParseTable nullReplies selectState)) = Select
   \<and> purpose (selectState\<lparr>purpose := []\<rparr>) = []
   \<and> handleGenerateEmails jsonParseTable helloReplies (selectState\<lparr>purpose := []\<rparr>)
       = (selectState\<lparr>purpose := [], error := Some generateGuardMessage\<rparr>, [])"
proof -
  have h: "resumeData selectState \<noteq> None \<and> purpose selectState \<noteq> [] \<and>
    selectedContacts selectState \<noteq> {}"
    by (simp add: selectState_fields)
  have cs: "map snd (filter (\<lambda>(i, p). (\<exists>v. email p = Some v \<and> v \<noteq> JNull \<and> truthy v) \<and>
                                        emailElement i p \<in> selectedContacts selectState)
                               (enumerate 0 (contacts selectState))) = [ada]"
    using selectState_fields(5) by (simp only: contactsToEmail_explicit)
  have ok: "\<forall>i<length [ada]. \<exists>d. generateEmailForContact jsonParseTable ([ada] ! i) (helloReplies i) = Inr d"
    by (simp add: helloReplies_def hello_draft)
  have bad: "\<not> (\<forall>i<length [ada]. \<exists>d. generateEmailForContact jsonParseTable ([ada] ! i) (nullReplies i) = Inr d)"
    by (simp add: nullReplies_def null_draft)
  have a: "length (emails (fst (handleGenerateEmails jsonParseTable helloReplies selectState))) = length [ada] \<and>
            (\<forall>i<length [ada].
               generateEmailForContact jsonParseTable ([ada] ! i) (helloReplies i)
                 = Inr (draft.truncate (emails (fst (handleGenerateEmails jsonParseTable helloReplies selectState)) ! i)) \<and>
               \<not> sent (emails (fst (handleGenerateEmails jsonParseTable helloReplies selectState)) ! i) \<and>
               to (emails (fst (handleGenerateEmails jsonParseTable helloReplies selectState)) ! i) = email ([ada] ! i) \<and>
               (\<exists>v. email ([ada] ! i) = Some v \<and> v \<noteq> JNull)) \<and>
            currentStep (fst (handleGenerateEmails jsonParseTable helloReplies selectState)) = Review \<and>
            error (fst (handleGenerateEmails jsonParseTable helloReplies selectState)) = None"
    using conjunct1 [OF handleGenerateEmails_batch [of selectState jsonParseTable helloReplies], rule_format, OF h]
    unfolding Let_def cs if_P [OF ok] .
  have b: "emails (fst (handleGenerateEmails jsonParseTable nullReplies selectState)) = [] \<and>
           error (fst (handleGenerateEmails jsonParseTable nullReplies selectState)) = Some generateFailedMessage \<and>
           currentStep (fst (handleGenerateEmails jsonParseTable nullReplies selectState)) = currentStep selectState"
    using conjunct1 [OF handleGenerateEmails_batch [of selectState jsonParseTable nullReplies], rule_format, OF h]
    unfolding Let_def cs if_not_P [OF bad] .
  have g: "resumeData (selectState\<lparr>purpose := []\<rparr>) = None \<or> purpose (selectState\<lparr>purpose := []\<rparr>) = [] \<or>
           selectedContacts (selectState\<lparr>purpose := []\<rparr>) = {}"
    by simp
  have c: "handleGenerateEmails jsonParseTable helloReplies (selectState\<lparr>purpose := []\<rparr>)
       = (selectState\<lparr>purpose := [], error := Some generateGuardMessage\<rparr>, [])"
    using conjunct2 [OF handleGenerateEmails_batch [of "selectState\<lparr>purpose := []\<rparr>" jsonParseTable helloReplies],
        rule_format, OF g] .
  have e: "email ada = Some (JString (str ''ada@u.edu''))" by (simp add: ada_def)
  have cl: "contacts selectState = [ada, bob]" by (simp add: selectState_def)
  show ?thesis
    using a b c h e cl by (simp add: selectState_fields)
qed

lemma staleState_eq:
  "staleState =
     \<lparr>currentStep = Select, resumeData = Some sampleResume, university = str ''MIT'',
      department = str ''Logic'', purpose = [], contacts = [ada],
      selectedContacts = {Primitive (JString (str ''ada@u.edu''))}, emails = [helloMail],
      history = [],
      isLoading = False, isParsingResume = False, isGeneratingEmails = False,
      isSending = False, error = None\<rparr>"
  by code_simp

lemma staleState_fields:
  "resumeData staleState \<noteq> None" "purpose staleState = []" "currentStep staleState = Select"
  "emails staleState = [helloMail]" "contactsToEmail staleState = [ada]"
  "selectedContacts staleState \<noteq> {}"
  by (simp_all add: staleState_eq contactsToEmail_def hasEmail_def emailElement_def ada_def str_def
        enumerate_eq_zip upt_rec)

text \<open>
  Claim C3 as stated fails when the guard of the handler trips. At the end of the session
  \<open>staleSession\<close> Ada is selected and her request would succeed, but the purpose is empty:
  the handler issues no request, reports an error, stays on Select and keeps the email
  list as it was, with the draft of the earlier batch in it. The outcome is neither of
  the two that the claim allows.
\<close>

theorem handleGenerateEmails_counterexample:
  "contactsToEmail staleState = [ada]
   \<and> generateEmailForContact jsonParseTable ada (helloReplies 0)
       = Inr \<lparr>to = Some (JString (str ''ada@u.edu'')), subject = Some (JString (str ''Hello'')),
              body = Some (JString (str ''Dear Ada''))\<rparr>
   \<and> snd (handleGenerateEmails jsonParseTable helloReplies staleState) = []
   \<and> currentStep (fst (handleGenerateEmails jsonParseTable helloReplies staleState)) = Select
   \<and> emails (fst (handleGenerateEmails jsonParseTable helloReplies staleState)) = [helloMail]
   \<and> error (fst (handleGenerateEmails jsonParseTable helloReplies staleState))
       = Some generateGuardMessage"
proof -
  have "handleGenerateEmails jsonParseTable helloReplies staleState
          = (staleState\<lparr>error := Some generateGuardMessage\<rparr>, [])"
    using staleState_fields(2) by (intro handleGenerateEmails_guard) simp
  then show ?thesis
    by (simp add: staleState_fields helloReplies_def hello_draft)
qed

lemma windowOpens_append: "windowOpens (a @ b) = windowOpens a @ windowOpens b"
  by (induction a rule: windowOpens.induct) simp_all

lemma truncate_historyEntry: "draft.truncate (historyEntry m d) = draft.truncate m"
  by (simp add: historyEntry_def draft.truncate_def)

lemma markSent_sent: "sent m \<Longrightarrow> markSent m = m"
  by (simp add: markSent_def)

lemma drop_Cons_nth:
  assumes "drop i cur = m # rest"
  shows "i < length cur" "cur ! i = m" "drop (Suc i) cur = rest"
proof -
  show i: "i < length cur"
    using assms by (metis drop_all list.distinct(1) not_le)
  then have "drop i cur = cur ! i # drop (Suc i) cur"
    by (simp add: Cons_nth_drop_Suc)
  then show "cur ! i = m" "drop (Suc i) cur = rest"
    using assms by simp_all
qed

lemma sendLoop_completed:
  assumes "sendLoop link clock i rest (cur, entries, fx) = (None, cur', entries', fx')"
    and "drop i cur = rest"
  shows "cur' = take i cur @ map markSent rest \<and>
         map draft.truncate entries' =
           map draft.truncate entries @ map draft.truncate (filter unsent rest) \<and>
         map Inr (windowOpens fx') = map Inr (windowOpens fx) @ map link (filter unsent rest)"
  using assms
proof (induction rest arbitrary: i cur entries fx)
  case Nil
  then show ?case by simp
next
  case (Cons m rest)
  note d = drop_Cons_nth [OF Cons.prems(2)]
  show ?case
  proof (cases "sent m")
    case True
    then have run: "sendLoop link clock (Suc i) rest (cur, entries, fx) = (None, cur', entries', fx')"
      using Cons.prems(1) by simp
    have "take (Suc i) cur = take i cur @ [m]"
      using d(1,2) by (simp add: take_Suc_conv_app_nth)
    then show ?thesis
      using Cons.IH [OF run d(3)] True by (simp add: markSent_sent unsent_def)
  next
    case False
    then obtain l where l: "link m = Inr l"
      using Cons.prems(1) by (cases "link m") auto
    let ?cur = "cur[i := (cur ! i)\<lparr>sent := True\<rparr>]"
    have run: "sendLoop link clock (Suc i) rest
        (?cur, entries @ [historyEntry m (clock i)], fx @ [WindowOpen l]) = (None, cur', entries', fx')"
      using Cons.prems(1) False l by simp
    have dr: "drop (Suc i) ?cur = rest"
      using d(3) by simp
    have tk: "take (Suc i) ?cur = take i cur @ [markSent m]"
      using d(1,2) by (simp add: take_Suc_conv_app_nth markSent_def)
    show ?thesis
      using Cons.IH [OF run dr] False l
      by (simp add: tk unsent_def windowOpens_append truncate_historyEntry)
  qed
qed

lemma sendLoop_total:
  "\<forall>m\<in>set rest. unsent m \<longrightarrow> (\<exists>l. link m = Inr l) \<Longrightarrow>
   \<exists>cur' entries' fx'. sendLoop link clock i rest (cur, entries, fx) = (None, cur', entries', fx')"
proof (induction rest arbitrary: i cur entries fx)
  case Nil
  then show ?case by simp
next
  case (Cons m rest)
  show ?case
  proof (cases "sent m")
    case True
    then show ?thesis using Cons by simp
  next
    case False
    then obtain l where "link m = Inr l"
      using Cons.prems by (auto simp: unsent_def)
    then show ?thesis
      using False Cons by simp
  qed
qed

lemma sendLoop_sent_mono:
  "sendLoop link clock i rest (cur, entries, fx) = (r, cur', entries', fx') \<Longrightarrow>
   sentPreserved cur cur'"
proof (induction rest arbitrary: i cur entries fx)
  case Nil
  then show ?case by (simp add: sentPreserved_def)
next
  case (Cons m rest)
  show ?case
  proof (cases "sent m")
    case True
    then show ?thesis using Cons by simp
  next
    case False
    show ?thesis
    proof (cases "link m")
      case (Inl e)
      then show ?thesis using Cons.prems False by (simp add: sentPreserved_def)
    next
      case (Inr l)
      let ?cur = "cur[i := (cur ! i)\<lparr>sent := True\<rparr>]"
      have "sentPreserved ?cur cur'"
        using Cons.prems False Inr Cons.IH by simp
      moreover have "sentPreserved cur ?cur"
      proof (cases "i < length cur")
        case True
        then show ?thesis
          by (auto simp add: sentPreserved_def nth_list_update)
      next
        case False
        then show ?thesis
          by (simp add: sentPreserved_def list_update_beyond)
      qed
      ultimately show ?thesis
        by (simp add: sentPreserved_def)
    qed
  qed
qed

lemma handleSendAll_completed:
  assumes "handleSendAll toStr enc clock st = (None, st', fx)"
  obtains cur new fx0 where
    "sendLoop (mailtoLink toStr enc) clock 0 (emails st) (emails st, [], []) = (None, cur, new, fx0)"
    "emails st' = cur" "history st' = new @ history st" "windowOpens fx = windowOpens fx0"
proof -
  obtain r cur new fx0 where
    loop: "sendLoop (mailtoLink toStr enc) clock 0 (emails st) (emails st, [], []) = (r, cur, new, fx0)"
    by (metis prod_cases4)
  have r: "r = None"
    using assms loop by (cases r) (auto simp: handleSendAll_def split: if_splits)
  have "emails st' = cur \<and> history st' = new @ history st \<and> windowOpens fx = windowOpens fx0"
    using assms loop r
    by (cases "new = []") (auto simp: handleSendAll_def windowOpens_append)
  then show ?thesis
    using that loop r by blast
qed

text \<open>
  Claim C4. When a dispatch completes (the handler runs to its end without an exception):
  the email list is the old one with every sent flag set, so every email is sent and
  nothing else about it has changed; the history is the old history with new records put
  in front, one for each previously unsent email, in list order and with that email's
  recipient, subject and body, so it has grown by exactly the number of previously unsent
  emails; and the links opened are, in this order, those of the previously unsent emails
  in list order, none for an email that was already sent. A dispatch does complete
  whenever the link of every unsent email can be built.
\<close>

theorem handleSendAll_dispatch:
  "(handleSendAll toStr enc clock st = (None, st', fx) \<longrightarrow>
      emails st' = map markSent (emails st) \<and>
      (\<forall>m\<in>set (emails st'). sent m) \<and>
      (\<exists>new. history st' = new @ history st \<and>
             map draft.truncate new = map draft.truncate (filter unsent (emails st))) \<and>
      length (history st') = length (history st) + length (filter unsent (emails st)) \<and>
      map Inr (windowOpens fx) = map (mailtoLink toStr enc) (filter unsent (emails st)))
   \<and> ((\<forall>m\<in>set (emails st). unsent m \<longrightarrow> (\<exists>l. mailtoLink toStr enc m = Inr l)) \<longrightarrow>
        (\<exists>st' fx. handleSendAll toStr enc clock st = (None, st', fx)))"
proof (intro conjI impI)
  assume fin: "handleSendAll toStr enc clock st = (None, st', fx)"
  then obtain cur new fx0 where
    loop: "sendLoop (mailtoLink toStr enc) clock 0 (emails st) (emails st, [], []) = (None, cur, new, fx0)"
    and st': "emails st' = cur" "history st' = new @ history st" "windowOpens fx = windowOpens fx0"
    by (rule handleSendAll_completed)
  have res: "cur = map markSent (emails st)"
    "map draft.truncate new = map draft.truncate (filter unsent (emails st))"
    "map Inr (windowOpens fx0) = map (mailtoLink toStr enc) (filter unsent (emails st))"
    using sendLoop_completed [OF loop] by simp_all
  show e: "emails st' = map markSent (emails st)"
    using st'(1) res(1) by simp
  show "\<forall>m\<in>set (emails st'). sent m"
    unfolding e by (simp add: markSent_def)
  show "\<exists>new. history st' = new @ history st \<and>
             map draft.truncate new = map draft.truncate (filter unsent (emails st))"
    using st'(2) res(2) by blast
  have "length new = length (filter unsent (emails st))"
    using res(2) by (metis length_map)
  then show "length (history st') = length (history st) + length (filter unsent (emails st))"
    using st'(2) by simp
  show "map Inr (windowOpens fx) = map (mailtoLink toStr enc) (filter unsent (emails st))"
    using st'(3) res(3) by simp
next
  assume "\<forall>m\<in>set (emails st). unsent m \<longrightarrow> (\<exists>l. mailtoLink toStr enc m = Inr l)"
  then obtain cur new fx0 where
    "sendLoop (mailtoLink toStr enc) clock 0 (emails st) (emails st, [], []) = (None, cur, new, fx0)"
    using sendLoop_total [of "emails st" "mailtoLink toStr enc" clock 0 "emails st" "[]" "[]"] by blast
  then show "\<exists>st' fx. handleSendAll toStr enc clock st = (None, st', fx)"
    by (simp add: handleSendAll_def)
qed

lemma link_helloMail:
  "mailtoLink toStrSample encodeSample helloMail =
     Inr (str ''mailto:ada@u.edu?subject=Hello&body=Dear%20Ada%0A%0A(Remember%20to%20attach%20your%20resume!)'')"
  by code_simp

text \<open>
  An instance: of two emails the first is already sent. The dispatch completes, both are
  sent afterwards, the history grows from none to one record, and the one link opened is
  that of the second email.
\<close>

theorem handleSendAll_dispatch_witness:
  "\<exists>st' fx. handleSendAll toStrSample encodeSample clockSample reviewState = (None, st', fx) \<and>
      emails st' = [otherMail, helloMail\<lparr>sent := True\<rparr>] \<and>
      length (history st') = 1 \<and>
      windowOpens fx =
        [str ''mailto:ada@u.edu?subject=Hello&body=Dear%20Ada%0A%0A(Remember%20to%20attach%20your%20resume!)'']"
proof -
  have e: "emails reviewState = [otherMail, helloMail]" "history reviewState = []"
    by (simp_all add: reviewState_def selectState_def readyState_def initialState_def)
  have u: "filter unsent (emails reviewState) = [helloMail]"
    "map markSent (emails reviewState) = [otherMail, helloMail\<lparr>sent := True\<rparr>]"
    by (simp_all add: e unsent_def markSent_def otherMail_def helloMail_def)
  have "\<forall>m\<in>set (emails reviewState). unsent m \<longrightarrow>
          (\<exists>l. mailtoLink toStrSample encodeSample m = Inr l)"
    by (simp add: e unsent_def otherMail_def link_helloMail)
  then obtain st' fx where
    d: "handleSendAll toStrSample encodeSample clockSample reviewState = (None, st', fx)"
    using handleSendAll_dispatch [of toStrSample encodeSample clockSample reviewState] by blast
  then have "emails st' = map markSent (emails reviewState)"
    "length (history st') = length (history reviewState) + length (filter unsent (emails reviewState))"
    "map Inr (windowOpens fx) = map (mailtoLink toStrSample encodeSample) (filter unsent (emails reviewState))"
    using handleSendAll_dispatch [of toStrSample encodeSample clockSample reviewState st' fx] by blast+
  note f = this
  have a: "emails st' = [otherMail, helloMail\<lparr>sent := True\<rparr>]"
    using f(1) by (simp only: u)
  have b: "length (history st') = 1"
    using f(2) unfolding u e(2) by simp
  have "map Inr (windowOpens fx) =
       [Inr (str ''mailto:ada@u.edu?subject=Hello&body=Dear%20Ada%0A%0A(Remember%20to%20attach%20your%20resume!)'') :: jsError + jsstring]"
    using f(3) by (simp only: u list.map link_helloMail)
  then have c: "windowOpens fx =
        [str ''mailto:ada@u.edu?subject=Hello&body=Dear%20Ada%0A%0A(Remember%20to%20attach%20your%20resume!)'']"
    by (cases "windowOpens fx") auto
  show ?thesis
    using d a b c by blast
qed

lemma sentPreserved_refl: "sentPreserved xs xs"
  by (simp add: sentPreserved_def)

lemma sentPreserved_trans: "sentPreserved xs ys \<Longrightarrow> sentPreserved ys zs \<Longrightarrow> sentPreserved xs zs"
  by (simp add: sentPreserved_def)

lemma emails_handleFileChange: "emails (fst (handleFileChange parse file b reply st)) = emails st"
  by (simp add: handleFileChange_def rejectFile_def Let_def split: option.splits sum.splits)

lemma emails_handleFindContacts: "emails (fst (handleFindContacts parse reply st)) = emails st"
  by (simp add: handleFindContacts_def split: option.splits sum.splits)

lemma emails_handleContactSelection: "emails (handleContactSelection a st) = emails st"
  by (simp add: handleContactSelection_def)

lemma emails_handleBack: "emails (handleBack st) = emails st"
  by (simp add: handleBack_def)

lemma emails_handleClearHistory: "emails (fst (handleClearHistory c st)) = emails st"
  by (simp add: handleClearHistory_def)

lemma handleEmailChange_sent:
  "handleEmailChange index newBody st = Inr st' \<Longrightarrow> map sent (emails st') = map sent (emails st)"
proof -
  assume a: "handleEmailChange index newBody st = Inr st'"
  then have r: "0 \<le> index \<and> index < int (length (emails st))"
    by (simp add: handleEmailChange_def split: if_splits)
  then have n: "nat index < length (emails st)" by linarith
  have "emails st' = (emails st)[nat index := (emails st ! nat index)\<lparr>body := Some (JString newBody)\<rparr>]"
    using a r by (auto simp: handleEmailChange_def)
  then show ?thesis
    using n by (simp add: map_update list_update_same_conv)
qed

lemma handleEmailChange_to:
  "handleEmailChange index newBody st = Inr st' \<Longrightarrow> map to (emails st') = map to (emails st)"
proof -
  assume a: "handleEmailChange index newBody st = Inr st'"
  then have r: "0 \<le> index \<and> index < int (length (emails st))"
    by (simp add: handleEmailChange_def split: if_splits)
  then have n: "nat index < length (emails st)" by linarith
  have "emails st' = (emails st)[nat index := (emails st ! nat index)\<lparr>body := Some (JString newBody)\<rparr>]"
    using a r by (auto simp: handleEmailChange_def)
  then show ?thesis
    using n by (simp add: map_update list_update_same_conv)
qed

lemma handleEmailChange_other:
  "handleEmailChange index newBody st = Inr st' \<Longrightarrow>
   contacts st' = contacts st \<and> selectedContacts st' = selectedContacts st"
  by (auto simp: handleEmailChange_def split: if_splits)

lemma map_sent_sentPreserved: "map sent ys = map sent xs \<Longrightarrow> sentPreserved xs ys"
  unfolding sentPreserved_def by (metis length_map nth_map)

lemma handleSendAll_emails:
  assumes "handleSendAll toStr enc clock st = (r, st', fx)"
  obtains r' cur new fx0 where
    "sendLoop (mailtoLink toStr enc) clock 0 (emails st) (emails st, [], []) = (r', cur, new, fx0)"
    "emails st' = cur" "contacts st' = contacts st" "selectedContacts st' = selectedContacts st"
proof -
  obtain r' cur new fx0 where
    loop: "sendLoop (mailtoLink toStr enc) clock 0 (emails st) (emails st, [], []) = (r', cur, new, fx0)"
    by (metis prod_cases4)
  have "emails st' = cur \<and> contacts st' = contacts st \<and> selectedContacts st' = selectedContacts st"
    using assms loop by (cases r') (auto simp: handleSendAll_def split: if_splits)
  then show ?thesis
    using that loop by blast
qed

lemma handleSendAll_sentPreserved:
  "handleSendAll toStr enc clock st = (r, st', fx) \<Longrightarrow> sentPreserved (emails st) (emails st')"
  using sendLoop_sent_mono by (elim handleSendAll_emails) blast

lemma step_sentPreserved:
  "keepsDrafts ev \<Longrightarrow> sentPreserved (emails st) (emails (step parse toStr enc st ev))"
proof (cases ev)
  case (EmailChange i newBody)
  show ?thesis
  proof (cases "handleEmailChange (int i) newBody st")
    case (Inl e)
    then show ?thesis using EmailChange by (simp add: sentPreserved_refl)
  next
    case (Inr st')
    then show ?thesis
      using EmailChange handleEmailChange_sent [OF Inr]
      by (simp add: sentPreserved_refl map_sent_sentPreserved)
  qed
next
  case (SendAll clock)
  obtain r st' fx where "handleSendAll toStr enc clock st = (r, st', fx)"
    by (metis prod_cases3)
  then show ?thesis
    using SendAll handleSendAll_sentPreserved by fastforce
qed (simp_all add: sentPreserved_refl emails_handleFileChange emails_handleFindContacts
       emails_handleContactSelection emails_handleBack emails_handleClearHistory)

lemma foldl_step_sentPreserved:
  "\<forall>ev\<in>set evs. keepsDrafts ev \<Longrightarrow>
   sentPreserved (emails st) (emails (foldl (step parse toStr enc) st evs))"
proof (induction evs arbitrary: st)
  case Nil
  then show ?case by (simp add: sentPreserved_refl)
next
  case (Cons ev evs)
  have "sentPreserved (emails st) (emails (step parse toStr enc st ev))"
    using Cons.prems by (simp add: step_sentPreserved)
  moreover have "sentPreserved (emails (step parse toStr enc st ev))
      (emails (foldl (step parse toStr enc) (step parse toStr enc st ev) evs))"
    using Cons.prems by (intro Cons.IH) simp
  ultimately show ?case
    using sentPreserved_trans by fastforce
qed

lemma handleGenerateEmails_emails:
  "resumeData st = None \<or> purpose st = [] \<or> selectedContacts st = {} \<Longrightarrow>
     emails (fst (handleGenerateEmails parse replies st)) = emails st"
  "resumeData st \<noteq> None \<and> purpose st \<noteq> [] \<and> selectedContacts st \<noteq> {} \<Longrightarrow>
     promiseAll (emailPromises parse replies st) = Inr ds \<Longrightarrow>
     emails (fst (handleGenerateEmails parse replies st)) = map withStatus ds"
  "resumeData st \<noteq> None \<and> purpose st \<noteq> [] \<and> selectedContacts st \<noteq> {} \<Longrightarrow>
     promiseAll (emailPromises parse replies st) = Inl e \<Longrightarrow>
     emails (fst (handleGenerateEmails parse replies st)) = []"
proof -
  show "emails (fst (handleGenerateEmails parse replies st)) = emails st"
    if "resumeData st = None \<or> purpose st = [] \<or> selectedContacts st = {}"
    using that by (simp add: handleGenerateEmails_guard)
  show "emails (fst (handleGenerateEmails parse replies st)) = map withStatus ds"
    if "resumeData st \<noteq> None \<and> purpose st \<noteq> [] \<and> selectedContacts st \<noteq> {}"
      and "promiseAll (emailPromises parse replies st) = Inr ds"
  proof -
    from that obtain resume where "resumeData st = Some resume" "purpose st \<noteq> []"
      "selectedContacts st \<noteq> {}" by auto
    then show ?thesis
      using that(2) by (simp add: handleGenerateEmails_all)
  qed
  show "emails (fst (handleGenerateEmails parse replies st)) = []"
    if "resumeData st \<noteq> None \<and> purpose st \<noteq> [] \<and> selectedContacts st \<noteq> {}"
      and "promiseAll (emailPromises parse replies st) = Inl e"
  proof -
    from that obtain resume where "resumeData st = Some resume" "purpose st \<noteq> []"
      "selectedContacts st \<noteq> {}" by auto
    then show ?thesis
      using that(2) by (simp add: handleGenerateEmails_some_failed)
  qed
qed

lemma handleGenerateEmails_unsent:
  assumes "resumeData st \<noteq> None \<and> purpose st \<noteq> [] \<and> selectedContacts st \<noteq> {}"
  shows "\<forall>m\<in>set (emails (fst (handleGenerateEmails parse replies st))). \<not> sent m"
proof (cases "promiseAll (emailPromises parse replies st)")
  case (Inl e)
  then show ?thesis
    using handleGenerateEmails_emails(3) [OF assms] by simp
next
  case (Inr ds)
  then show ?thesis
    using handleGenerateEmails_emails(2) [OF assms] by (simp add: withStatus_def)
qed

lemma step_sentPreserved_or_drafting:
  "sentPreserved (emails st) (emails (step parse toStr enc st ev)) \<or>
   (\<exists>replies. ev = GenerateEmails replies \<and>
      resumeData st \<noteq> None \<and> purpose st \<noteq> [] \<and> selectedContacts st \<noteq> {})"
proof (cases "keepsDrafts ev")
  case True
  then show ?thesis
    by (simp add: step_sentPreserved)
next
  case False
  then obtain replies where ev: "ev = GenerateEmails replies"
    by (cases ev) simp_all
  show ?thesis
  proof (cases "resumeData st = None \<or> purpose st = [] \<or> selectedContacts st = {}")
    case True
    then have "emails (step parse toStr enc st ev) = emails st"
      using ev handleGenerateEmails_emails(1) [of st parse replies] by simp
    then show ?thesis
      by (simp add: sentPreserved_refl)
  next
    case False
    then show ?thesis
      using ev by simp
  qed
qed

lemma foldl_step_sentPreserved_or_drafting:
  "sentPreserved (emails st) (emails (foldl (step parse toStr enc) st evs)) \<or>
   (\<exists>pre replies post. evs = pre @ GenerateEmails replies # post \<and>
      resumeData (foldl (step parse toStr enc) st pre) \<noteq> None \<and>
      purpose (foldl (step parse toStr enc) st pre) \<noteq> [] \<and>
      selectedContacts (foldl (step parse toStr enc) st pre) \<noteq> {})"
proof (induction evs rule: rev_induct)
  case Nil
  then show ?case by (simp add: sentPreserved_refl)
next
  case (snoc ev evs)
  let ?s = "foldl (step parse toStr enc) st evs"
  let ?drafting = "\<lambda>evs. \<exists>pre replies post. evs = pre @ GenerateEmails replies # post \<and>
      resumeData (foldl (step parse toStr enc) st pre) \<noteq> None \<and>
      purpose (foldl (step parse toStr enc) st pre) \<noteq> [] \<and>
      selectedContacts (foldl (step parse toStr enc) st pre) \<noteq> {}"
  show ?case
  proof (cases "?drafting evs")
    case True
    then obtain pre replies post where "evs = pre @ GenerateEmails replies # post"
      "resumeData (foldl (step parse toStr enc) st pre) \<noteq> None"
      "purpose (foldl (step parse toStr enc) st pre) \<noteq> []"
      "selectedContacts (foldl (step parse toStr enc) st pre) \<noteq> {}"
      by blast
    then have "evs @ [ev] = pre @ GenerateEmails replies # (post @ [ev])"
      by simp
    then show ?thesis
      using \<open>resumeData (foldl (step parse toStr enc) st pre) \<noteq> None\<close>
        \<open>purpose (foldl (step parse toStr enc) st pre) \<noteq> []\<close>
        \<open>selectedContacts (foldl (step parse toStr enc) st pre) \<noteq> {}\<close>
      by blast
  next
    case False
    then have p: "sentPreserved (emails st) (emails ?s)"
      using snoc.IH by blast
    show ?thesis
    proof (cases "sentPreserved (emails ?s) (emails (step parse toStr enc ?s ev))")
      case True
      then have "sentPreserved (emails st) (emails (foldl (step parse toStr enc) st (evs @ [ev])))"
        using p sentPreserved_trans by fastforce
      then show ?thesis by blast
    next
      case False
      then obtain replies where "ev = GenerateEmails replies"
        "resumeData ?s \<noteq> None" "purpose ?s \<noteq> []" "selectedContacts ?s \<noteq> {}"
        using step_sentPreserved_or_drafting [of ?s parse toStr enc ev] by blast
      then have "evs @ [ev] = evs @ GenerateEmails replies # [] \<and>
        resumeData ?s \<noteq> None \<and> purpose ?s \<noteq> [] \<and> selectedContacts ?s \<noteq> {}"
        by simp
      then show ?thesis by blast
    qed
  qed
qed

text \<open>
  Claim C8, as the code has it. Editing a body leaves every sent flag as it is. A
  dispatch, completed or ended early by an exception, keeps the length of the list and
  every sent flag that was true. Along every sequence of events without a run of
  drafting, the list keeps its length and a flag that is true at some position stays
  true there; and along every sequence of events whatsoever this holds unless the
  sequence has a run of drafting that passes the guard of the handler. A run of drafting
  leaves the list as it is when the guard is not passed; past the guard it discards the
  list and puts in its place the new drafts, all of them unsent, or the empty list when a
  request fails.
\<close>

theorem sent_never_reverts:
  "(\<forall>st'. handleEmailChange index newBody st = Inr st' \<longrightarrow>
       map sent (emails st') = map sent (emails st))
   \<and> (\<forall>r st' fx. handleSendAll toStr enc clock st = (r, st', fx) \<longrightarrow>
       sentPreserved (emails st) (emails st'))
   \<and> ((\<forall>ev\<in>set evs. keepsDrafts ev) \<longrightarrow>
       sentPreserved (emails st) (emails (foldl (step parse toStr enc) st evs)))
   \<and> (sentPreserved (emails st) (emails (foldl (step parse toStr enc) st evs)) \<or>
       (\<exists>pre replies post. evs = pre @ GenerateEmails replies # post \<and>
          resumeData (foldl (step parse toStr enc) st pre) \<noteq> None \<and>
          purpose (foldl (step parse toStr enc) st pre) \<noteq> [] \<and>
          selectedContacts (foldl (step parse toStr enc) st pre) \<noteq> {}))
   \<and> (resumeData st = None \<or> purpose st = [] \<or> selectedContacts st = {} \<longrightarrow>
       emails (fst (handleGenerateEmails parse replies st)) = emails st)
   \<and> (resumeData st \<noteq> None \<and> purpose st \<noteq> [] \<and> selectedContacts st \<noteq> {} \<longrightarrow>
       (\<forall>m\<in>set (emails (fst (handleGenerateEmails parse replies st))). \<not> sent m) \<and>
       (\<forall>ds. promiseAll (emailPromises parse replies st) = Inr ds \<longrightarrow>
          emails (fst (handleGenerateEmails parse replies st)) = map withStatus ds) \<and>
       (\<forall>e. promiseAll (emailPromises parse replies st) = Inl e \<longrightarrow>
          emails (fst (handleGenerateEmails parse replies st)) = []))"
proof (intro conjI allI impI ballI)
  show "sentPreserved (emails st) (emails (foldl (step parse toStr enc) st evs)) \<or>
       (\<exists>pre replies post. evs = pre @ GenerateEmails replies # post \<and>
          resumeData (foldl (step parse toStr enc) st pre) \<noteq> None \<and>
          purpose (foldl (step parse toStr enc) st pre) \<noteq> [] \<and>
          selectedContacts (foldl (step parse toStr enc) st pre) \<noteq> {})"
    by (rule foldl_step_sentPreserved_or_drafting)
next
  fix st'
  assume "handleEmailChange index newBody st = Inr st'"
  then show "map sent (emails st') = map sent (emails st)"
    by (rule handleEmailChange_sent)
next
  fix r st' fx
  assume "handleSendAll toStr enc clock st = (r, st', fx)"
  then show "sentPreserved (emails st) (emails st')"
    by (rule handleSendAll_sentPreserved)
next
  assume "\<forall>ev\<in>set evs. keepsDrafts ev"
  then show "sentPreserved (emails st) (emails (foldl (step parse toStr enc) st evs))"
    by (rule foldl_step_sentPreserved)
next
  assume "resumeData st = None \<or> purpose st = [] \<or> selectedContacts st = {}"
  then show "emails (fst (handleGenerateEmails parse replies st)) = emails st"
    by (rule handleGenerateEmails_emails(1))
next
  assume g: "resumeData st \<noteq> None \<and> purpose st \<noteq> [] \<and> selectedContacts st \<noteq> {}"
  {
    fix m
    assume "m \<in> set (emails (fst (handleGenerateEmails parse replies st)))"
    then show "\<not> sent m"
      using handleGenerateEmails_unsent [OF g] by blast
  }
  {
    fix ds
    assume "promiseAll (emailPromises parse replies st) = Inr ds"
    then show "emails (fst (handleGenerateEmails parse replies st)) = map withStatus ds"
      using g by (rule handleGenerateEmails_emails(2) [rotated])
  }
  {
    fix e
    assume "promiseAll (emailPromises parse replies st) = Inl e"
    then show "emails (fst (handleGenerateEmails parse replies st)) = []"
      using g by (rule handleGenerateEmails_emails(3) [rotated])
  }
qed

lemma reviewState_emails: "emails reviewState = [otherMail, helloMail]"
  by (simp add: reviewState_def)

text \<open>
  Instances on a list whose first email is already sent: an edit of the second body, a
  dispatch, and a sequence of an edit, a dispatch, a step back and another edit, where
  the first flag is true before and after; a run of drafting with the purpose cleared,
  which leaves the list alone; and a run of drafting past the guard, which replaces the
  two emails by one new unsent draft.
\<close>

theorem sent_never_reverts_witness:
  "handleEmailChange 1 (str ''Dear Prof'') reviewState = Inr editedState
   \<and> map sent (emails editedState) = [True, False]
   \<and> sent (emails reviewState ! 0)
   \<and> sent (emails (fst (snd (handleSendAll toStrSample encodeSample clockSample reviewState))) ! 0)
   \<and> list_all keepsDrafts editAndSend
   \<and> length (emails (foldl (step jsonParseTable toStrSample encodeSample) reviewState editAndSend)) = 2
   \<and> sent (emails (foldl (step jsonParseTable toStrSample encodeSample) reviewState editAndSend) ! 0)
   \<and> emails (fst (handleGenerateEmails jsonParseTable helloReplies (reviewState\<lparr>purpose := []\<rparr>)))
       = [otherMail, helloMail]
   \<and> emails (fst (handleGenerateEmails jsonParseTable helloReplies reviewState)) = [helloMail]
   \<and> \<not> sent helloMail"
proof -
  have e: "handleEmailChange 1 (str ''Dear Prof'') reviewState = Inr editedState"
    by (simp add: handleEmailChange_def editedState_def reviewState_emails)
  have s0: "sent (emails reviewState ! 0)" "length (emails reviewState) = 2"
    "map sent (emails reviewState) = [True, False]"
    by (simp_all add: reviewState_emails otherMail_def helloMail_def)
  have k: "\<forall>ev\<in>set editAndSend. keepsDrafts ev"
    by (simp add: editAndSend_def)
  obtain r st' fx where d: "handleSendAll toStrSample encodeSample clockSample reviewState = (r, st', fx)"
    by (metis prod_cases3)
  note inst = sent_never_reverts [of 1 "str ''Dear Prof''" reviewState toStrSample encodeSample
      clockSample editAndSend jsonParseTable helloReplies]
  note edit = conjunct1 [OF inst]
    and send = conjunct1 [OF conjunct2 [OF inst]]
    and kept = conjunct1 [OF conjunct2 [OF conjunct2 [OF inst]]]
    and drafted = conjunct2 [OF conjunct2 [OF conjunct2 [OF conjunct2 [OF conjunct2 [OF inst]]]]]
  have a: "map sent (emails editedState) = map sent (emails reviewState)"
    using edit e by blast
  have "sentPreserved (emails reviewState) (emails st')"
    using send d by blast
  then have b: "sent (emails (fst (snd (handleSendAll toStrSample encodeSample clockSample reviewState))) ! 0)"
    using s0 d by (simp add: sentPreserved_def)
  have "sentPreserved (emails reviewState)
      (emails (foldl (step jsonParseTable toStrSample encodeSample) reviewState editAndSend))"
    using kept k by blast
  then have c: "length (emails (foldl (step jsonParseTable toStrSample encodeSample) reviewState editAndSend)) = 2"
    "sent (emails (foldl (step jsonParseTable toStrSample encodeSample) reviewState editAndSend) ! 0)"
    using s0 by (simp_all add: sentPreserved_def)
  have k': "list_all keepsDrafts editAndSend"
    using k by (simp add: list_all_iff)
  have g0: "resumeData (reviewState\<lparr>purpose := []\<rparr>) = None \<or> purpose (reviewState\<lparr>purpose := []\<rparr>) = [] \<or>
            selectedContacts (reviewState\<lparr>purpose := []\<rparr>) = {}"
    by simp
  have f: "emails (fst (handleGenerateEmails jsonParseTable helloReplies (reviewState\<lparr>purpose := []\<rparr>)))
       = emails (reviewState\<lparr>purpose := []\<rparr>)"
    using conjunct1 [OF conjunct2 [OF conjunct2 [OF conjunct2 [OF conjunct2
      [OF sent_never_reverts [of 1 "str ''Dear Prof''" "reviewState\<lparr>purpose := []\<rparr>" toStrSample
        encodeSample clockSample editAndSend jsonParseTable helloReplies]]]]]] g0 by blast
  have g1: "resumeData reviewState \<noteq> None \<and> purpose reviewState \<noteq> [] \<and> selectedContacts reviewState \<noteq> {}"
    by (simp add: reviewState_def selectState_fields)
  have cs: "contactsToEmail reviewState = [ada]"
    using selectState_fields(5) by (simp add: reviewState_def contactsToEmail_def)
  have "emailPromises jsonParseTable helloReplies reviewState
          = [Inr \<lparr>to = Some (JString (str ''ada@u.edu'')), subject = Some (JString (str ''Hello'')),
                   body = Some (JString (str ''Dear Ada''))\<rparr>]"
    by (simp add: emailPromises_def cs helloReplies_def hello_draft)
  then have "promiseAll (emailPromises jsonParseTable helloReplies reviewState)
          = Inr [\<lparr>to = Some (JString (str ''ada@u.edu'')), subject = Some (JString (str ''Hello'')),
                   body = Some (JString (str ''Dear Ada''))\<rparr>]"
    by simp
  then have "emails (fst (handleGenerateEmails jsonParseTable helloReplies reviewState))
          = map withStatus [\<lparr>to = Some (JString (str ''ada@u.edu'')), subject = Some (JString (str ''Hello'')),
                   body = Some (JString (str ''Dear Ada''))\<rparr>]"
    using drafted g1 by blast
  then have h: "emails (fst (handleGenerateEmails jsonParseTable helloReplies reviewState)) = [helloMail]"
    by (simp add: withStatus_def helloMail_def)
  have u: "\<not> sent helloMail" by (simp add: helloMail_def)
  show ?thesis
    using e a b c k' s0 f h u by (simp add: reviewState_emails)
qed

text \<open>
  Claim C8 as stated fails for a sequence with a second run of drafting. At the end of
  the session \<open>sentSession\<close> the one email, to Ada, is sent; a step back and a new run of
  drafting later, the one email of the list, again to Ada, is not.
\<close>

theorem sent_never_reverts_counterexample:
  "map sent (emails (run jsonParseTable toStrSample encodeSample sentSession)) = [True]
   \<and> map to (emails (run jsonParseTable toStrSample encodeSample sentSession))
       = [Some (JString (str ''ada@u.edu''))]
   \<and> map sent (emails (run jsonParseTable toStrSample encodeSample redraftSession)) = [False]
   \<and> map to (emails (run jsonParseTable toStrSample encodeSample redraftSession))
       = [Some (JString (str ''ada@u.edu''))]"
  by code_simp

lemma sendLoop_to:
  "sendLoop link clock i rest (cur, entries, fx) = (r, cur', entries', fx') \<Longrightarrow>
   map to cur' = map to cur"
proof (induction rest arbitrary: i cur entries fx)
  case Nil
  then show ?case by simp
next
  case (Cons m rest)
  show ?case
  proof (cases "sent m")
    case True
    then show ?thesis using Cons by simp
  next
    case False
    show ?thesis
    proof (cases "link m")
      case (Inl e)
      then show ?thesis using Cons.prems False by simp
    next
      case (Inr l)
      let ?cur = "cur[i := (cur ! i)\<lparr>sent := True\<rparr>]"
      have "map to cur' = map to ?cur"
        using Cons.prems False Inr Cons.IH by simp
      moreover have "map to ?cur = map to cur"
      proof (cases "i < length cur")
        case True
        then show ?thesis
          by (simp add: map_update list_update_same_conv)
      next
        case False
        then show ?thesis
          by (simp add: list_update_beyond)
      qed
      ultimately show ?thesis by simp
    qed
  qed
qed

lemma recipients_kept:
  assumes "map to ys = map to xs" "\<forall>m\<in>set xs. P (to m)"
  shows "\<forall>m\<in>set ys. P (to m)"
proof -
  have "to ` set ys = to ` set xs"
    using assms(1) by (metis set_map)
  then show ?thesis
    using assms(2) by (metis imageE imageI)
qed

lemma set_truthyEmails:
  "set (truthyEmails found) =
     {k. \<exists>i<length found. \<exists>v. email (found ! i) = Some v \<and> truthy v \<and> k = emailElement i (found ! i)}"
proof -
  have "set (truthyEmails found) =
          {k. \<exists>i<length found. hasEmail (found ! i) \<and> k = emailElement i (found ! i)}"
    by (auto simp: truthyEmails_def in_set_enumerate_eq image_iff)
  also have "\<dots> = {k. \<exists>i<length found. \<exists>v. email (found ! i) = Some v \<and> truthy v \<and>
                       k = emailElement i (found ! i)}"
    using hasEmail_iff by (metis (no_types, opaque_lifting) truthy.simps(1))
  finally show ?thesis .
qed

lemma handleFindContacts_invariant:
  assumes "selectionInvariant st"
  shows "selectionInvariant (fst (handleFindContacts parse reply st))"
proof (cases "resumeData st = None \<or> university st = [] \<or> department st = []")
  case True
  then show ?thesis
    using assms by (auto simp: handleFindContacts_def selectionInvariant_def split: option.splits)
next
  case False
  show ?thesis
  proof (cases "findContacts parse reply")
    case (Inl e)
    then show ?thesis
      using assms False
      by (auto simp: handleFindContacts_def selectionInvariant_def split: option.splits)
  next
    case (Inr found)
    have "\<exists>i<length found. \<exists>v. email (found ! i) = Some v \<and> v \<noteq> JNull \<and> truthy v \<and>
            k = emailElement i (found ! i)" if "k \<in> set (truthyEmails found)" for k
      using that unfolding set_truthyEmails by fastforce
    then show ?thesis
      using assms False Inr
      by (auto simp: handleFindContacts_def selectionInvariant_def split: option.splits)
  qed
qed

lemma handleContactSelection_invariant:
  assumes "selectionInvariant st" "i < length (contacts st)" "hasEmail (contacts st ! i)"
  shows "selectionInvariant (handleContactSelection (emailElement i (contacts st ! i)) st)"
  using assms hasEmail_iff [of "contacts st ! i"]
  by (auto simp: handleContactSelection_def selectionInvariant_def)

lemma generated_recipients:
  assumes "promiseAll (emailPromises parse replies st) = Inr ds"
  shows "\<forall>m\<in>set (map withStatus ds). \<exists>v. to m = Some v \<and> v \<noteq> JNull \<and> truthy v"
proof -
  have ps: "emailPromises parse replies st = map Inr ds"
    using assms by (rule promiseAll_InrD)
  then have len: "length ds = length (contactsToEmail st)"
    using length_emailPromises [of parse replies st] by simp
  have "\<exists>v. to (ds ! j) = Some v \<and> v \<noteq> JNull \<and> truthy v" if j: "j < length ds" for j
  proof -
    have "generateEmailForContact parse (contactsToEmail st ! j) (replies j) = Inr (ds ! j)"
      using j len ps nth_emailPromises [of j st parse replies] by simp
    then have "to (ds ! j) = email (contactsToEmail st ! j)"
      by (rule generateEmailForContact_to)
    moreover have "hasEmail (contactsToEmail st ! j)"
      using j len contactsToEmail_hasEmail [of j st] by simp
    ultimately show ?thesis
      using hasEmail_iff by simp
  qed
  then have "\<forall>d\<in>set ds. \<exists>v. to d = Some v \<and> v \<noteq> JNull \<and> truthy v"
    by (metis in_set_conv_nth)
  then show ?thesis
    by (simp add: withStatus_def)
qed

lemma handleGenerateEmails_invariant:
  assumes "selectionInvariant st"
  shows "selectionInvariant (fst (handleGenerateEmails parse replies st))"
proof (cases "resumeData st = None \<or> purpose st = [] \<or> selectedContacts st = {}")
  case True
  then show ?thesis
    using assms by (simp add: handleGenerateEmails_guard selectionInvariant_def)
next
  case False
  then obtain resume where g: "resumeData st = Some resume" "purpose st \<noteq> []" "selectedContacts st \<noteq> {}"
    by auto
  show ?thesis
  proof (cases "promiseAll (emailPromises parse replies st)")
    case (Inl e)
    then show ?thesis
      using assms handleGenerateEmails_some_failed [OF g Inl]
      by (simp add: selectionInvariant_def)
  next
    case (Inr ds)
    then show ?thesis
      using assms handleGenerateEmails_all [OF g Inr] generated_recipients [OF Inr]
      by (simp add: selectionInvariant_def)
  qed
qed

lemma handleEmailChange_invariant:
  "selectionInvariant st \<Longrightarrow> handleEmailChange index newBody st = Inr st' \<Longrightarrow> selectionInvariant st'"
  using handleEmailChange_to [of index newBody st st'] handleEmailChange_other [of index newBody st st']
    recipients_kept [of "emails st'" "emails st" "\<lambda>t. \<exists>v. t = Some v \<and> v \<noteq> JNull \<and> truthy v"]
  by (simp add: selectionInvariant_def)

lemma handleSendAll_invariant:
  assumes "selectionInvariant st"
  shows "selectionInvariant (fst (snd (handleSendAll toStr enc clock st)))"
proof -
  obtain r st' fx where d: "handleSendAll toStr enc clock st = (r, st', fx)"
    by (metis prod_cases3)
  then obtain r' cur new fx0 where
    "sendLoop (mailtoLink toStr enc) clock 0 (emails st) (emails st, [], []) = (r', cur, new, fx0)"
    "emails st' = cur" "contacts st' = contacts st" "selectedContacts st' = selectedContacts st"
    by (rule handleSendAll_emails)
  then have "map to (emails st') = map to (emails st)" "contacts st' = contacts st"
    "selectedContacts st' = selectedContacts st"
    using sendLoop_to by blast+
  then have "selectionInvariant st'"
    using assms recipients_kept [of "emails st'" "emails st" "\<lambda>t. \<exists>v. t = Some v \<and> v \<noteq> JNull \<and> truthy v"]
    by (simp add: selectionInvariant_def)
  then show ?thesis
    using d by simp
qed

lemma step_invariant:
  assumes "selectionInvariant st"
  shows "selectionInvariant (step parse toStr enc st ev)"
proof (cases ev)
  case (FileChange f b reply)
  then show ?thesis
    using assms
    by (simp add: selectionInvariant_def handleFileChange_def rejectFile_def Let_def
          split: option.splits sum.splits)
next
  case (FindContacts reply)
  then show ?thesis using assms by (simp add: handleFindContacts_invariant)
next
  case (ToggleContact i)
  then show ?thesis
    using assms handleContactSelection_invariant [of st i] by simp
next
  case (GenerateEmails replies)
  then show ?thesis using assms by (simp add: handleGenerateEmails_invariant)
next
  case (EmailChange i newBody)
  then show ?thesis
    using assms handleEmailChange_invariant [of st "int i" newBody]
    by (cases "handleEmailChange (int i) newBody st") simp_all
next
  case (SendAll clock)
  then show ?thesis using assms by (simp add: handleSendAll_invariant)
next
  case Back
  then show ?thesis using assms by (simp add: selectionInvariant_def handleBack_def)
next
  case (ClearHistory confirmed)
  then show ?thesis using assms by (simp add: selectionInvariant_def handleClearHistory_def)
qed (use assms in \<open>simp_all add: selectionInvariant_def\<close>)

lemma foldl_step_invariant:
  "selectionInvariant st \<Longrightarrow> selectionInvariant (foldl (step parse toStr enc) st evs)"
  by (induction evs arbitrary: st) (simp_all add: step_invariant)

lemma initialState_invariant: "selectionInvariant initialState"
  by (simp add: selectionInvariant_def initialState_def)

lemma handleFindContacts_success:
  assumes "resumeData st \<noteq> None" "university st \<noteq> []" "department st \<noteq> []"
    and "findContacts parse reply = Inr found"
  shows "contacts (fst (handleFindContacts parse reply st)) = found"
    "selectedContacts (fst (handleFindContacts parse reply st)) =
       {k. \<exists>i<length found. \<exists>v. email (found ! i) = Some v \<and> truthy v \<and>
             k = emailElement i (found ! i)}"
    "currentStep (fst (handleFindContacts parse reply st)) = Select"
  using assms set_truthyEmails [of found]
  by (auto simp: handleFindContacts_def split: option.splits)

lemma toggle_adds_contact_email:
  assumes "k \<in> selectedContacts (step parse toStr enc st (ToggleContact i))" "k \<notin> selectedContacts st"
  shows "i < length (contacts st) \<and>
         (\<exists>v. email (contacts st ! i) = Some v \<and> v \<noteq> JNull \<and> truthy v) \<and>
         k = emailElement i (contacts st ! i)"
proof -
  have t: "i < length (contacts st) \<and> hasEmail (contacts st ! i)"
    using assms by (auto split: if_splits)
  then have "k = emailElement i (contacts st ! i)"
    using assms by (auto simp: handleContactSelection_def split: if_splits)
  then show ?thesis
    using t hasEmail_iff [of "contacts st ! i"] by simp
qed

lemma string_emails_selected:
  assumes "selectionInvariant st"
    and "\<forall>c\<in>set (contacts st). \<forall>v. email c = Some v \<longrightarrow> v = JNull \<or> (\<exists>s. v = JString s)"
  shows "\<forall>k\<in>selectedContacts st. \<exists>s. s \<noteq> [] \<and> k = Primitive (JString s)"
proof
  fix k
  assume "k \<in> selectedContacts st"
  then obtain i v where i: "i < length (contacts st)" "email (contacts st ! i) = Some v"
    "v \<noteq> JNull" "truthy v" "k = emailElement i (contacts st ! i)"
    using assms(1) unfolding selectionInvariant_def by blast
  then obtain s where "v = JString s"
    using assms(2) nth_mem [OF i(1)] by blast
  then show "\<exists>s. s \<noteq> [] \<and> k = Primitive (JString s)"
    using i by (simp add: emailElement_def)
qed

text \<open>
  Claim C7, as the code has it. In every state that a session reaches from the initial
  state, every element of the selection set is the \<^verbatim>\<open>email\<close> of a contact of the current
  list, and that \<^verbatim>\<open>email\<close> is present, not \<^verbatim>\<open>null\<close> and truthy; and every drafted email has a
  recipient that is not \<^verbatim>\<open>null\<close>. A successful discovery sets the selection to exactly the
  truthy \<^verbatim>\<open>email\<close> values of the discovered contacts; an element that a checkbox adds is the
  truthy \<^verbatim>\<open>email\<close> of the contact of that checkbox; the contacts for which drafts are
  requested all have an \<^verbatim>\<open>email\<close> that is not \<^verbatim>\<open>null\<close>; and when the \<^verbatim>\<open>email\<close> of every contact
  of a reached state is a string or \<^verbatim>\<open>null\<close> or absent, as the interface declares, the
  selection set holds non-empty strings only.
\<close>

theorem selection_only_contact_emails:
  "selectionInvariant (run parse toStr enc evs)
   \<and> (resumeData st \<noteq> None \<and> university st \<noteq> [] \<and> department st \<noteq> [] \<and>
        findContacts parse reply = Inr found \<longrightarrow>
        contacts (fst (handleFindContacts parse reply st)) = found \<and>
        selectedContacts (fst (handleFindContacts parse reply st)) =
          {k. \<exists>i<length found. \<exists>v. email (found ! i) = Some v \<and> truthy v \<and>
                k = emailElement i (found ! i)})
   \<and> (\<forall>k. k \<in> selectedContacts (step parse toStr enc st (ToggleContact i)) \<and>
            k \<notin> selectedContacts st \<longrightarrow>
            i < length (contacts st) \<and>
            (\<exists>v. email (contacts st ! i) = Some v \<and> v \<noteq> JNull \<and> truthy v) \<and>
            k = emailElement i (contacts st ! i))
   \<and> (\<forall>c\<in>set (contactsToEmail st). \<exists>v. email c = Some v \<and> v \<noteq> JNull \<and> truthy v)
   \<and> ((\<forall>c\<in>set (contacts (run parse toStr enc evs)).
          \<forall>v. email c = Some v \<longrightarrow> v = JNull \<or> (\<exists>s. v = JString s)) \<longrightarrow>
       (\<forall>k\<in>selectedContacts (run parse toStr enc evs). \<exists>s. s \<noteq> [] \<and> k = Primitive (JString s)))"
proof (intro conjI allI impI ballI)
  show inv: "selectionInvariant (run parse toStr enc evs)"
    unfolding run_def using initialState_invariant by (rule foldl_step_invariant)
  fix k
  assume "\<forall>c\<in>set (contacts (run parse toStr enc evs)).
          \<forall>v. email c = Some v \<longrightarrow> v = JNull \<or> (\<exists>s. v = JString s)"
    and "k \<in> selectedContacts (run parse toStr enc evs)"
  then show "\<exists>s. s \<noteq> [] \<and> k = Primitive (JString s)"
    using string_emails_selected [OF inv] by blast
next
  assume a: "resumeData st \<noteq> None \<and> university st \<noteq> [] \<and> department st \<noteq> [] \<and>
        findContacts parse reply = Inr found"
  then show "contacts (fst (handleFindContacts parse reply st)) = found"
    by (intro handleFindContacts_success) simp_all
  from a show "selectedContacts (fst (handleFindContacts parse reply st)) =
          {k. \<exists>i<length found. \<exists>v. email (found ! i) = Some v \<and> truthy v \<and>
                k = emailElement i (found ! i)}"
    by (intro handleFindContacts_success) simp_all
next
  fix k
  assume "k \<in> selectedContacts (step parse toStr enc st (ToggleContact i)) \<and> k \<notin> selectedContacts st"
  then have "i < length (contacts st) \<and>
         (\<exists>v. email (contacts st ! i) = Some v \<and> v \<noteq> JNull \<and> truthy v) \<and>
         k = emailElement i (contacts st ! i)"
    using toggle_adds_contact_email by blast
  then show "i < length (contacts st)"
    "\<exists>v. email (contacts st ! i) = Some v \<and> v \<noteq> JNull \<and> truthy v"
    "k = emailElement i (contacts st ! i)"
    by blast+
next
  fix c
  assume "c \<in> set (contactsToEmail st)"
  then have "hasEmail c"
    using contactsToEmail_member by blast
  then show "\<exists>v. email c = Some v \<and> v \<noteq> JNull \<and> truthy v"
    using hasEmail_iff [of c] by simp
qed

lemma findContacts_ada: "findContacts jsonParseTable (Inr adaText) = Inr [ada]"
proof -
  let ?full = "JObject [(str ''name'', JString (str ''Ada'')),
                       (str ''title'', JString (str ''Prof'')),
                       (str ''researchInterests'', JString (str ''Logic'')),
                       (str ''email'', JString (str ''ada@u.edu''))]"
  have p: "jsonParseTable (cleanJsonString adaText) = Some (JArray [?full])"
    by (simp only: adaText_def clean_samples_quoted parse_samples)
  have "\<forall>item\<in>set [?full]. exposes item"
    by (simp add: exposes_def str_def)
  then show ?thesis
    using findContacts_array [of jsonParseTable adaText "[?full]", OF p] by (simp add: asContact_ada)
qed

lemma findContacts_ann: "findContacts jsonParseTable (Inr annText) = Inr [ann]"
proof -
  let ?full = "JObject [(str ''name'', JString (str ''Ann'')),
                       (str ''title'', JString (str ''Dr'')),
                       (str ''researchInterests'', JString (str ''Sets'')),
                       (str ''email'', JString [])]"
  have p: "jsonParseTable (cleanJsonString annText) = Some (JArray [?full])"
    by (simp only: annText_def clean_samples_quoted parse_samples)
  have "\<forall>item\<in>set [?full]. exposes item"
    by (simp add: exposes_def str_def)
  moreover have "asContact ?full = ann"
    by (simp add: asContact_def ownProp_def ann_def str_def)
  ultimately show ?thesis
    using findContacts_array [of jsonParseTable annText "[?full]", OF p] by simp
qed

lemma findContacts_al: "findContacts jsonParseTable (Inr alText) = Inr [al]"
proof -
  let ?full = "JObject [(str ''name'', JString (str ''Al'')),
                       (str ''title'', JString (str ''Dr'')),
                       (str ''researchInterests'', JString (str ''Sets'')),
                       (str ''email'', JNumber (NumFinite 5))]"
  have p: "jsonParseTable (cleanJsonString alText) = Some (JArray [?full])"
    by (simp only: alText_def clean_samples_quoted parse_samples)
  have "\<forall>item\<in>set [?full]. exposes item"
    by (simp add: exposes_def str_def)
  moreover have "asContact ?full = al"
    by (simp add: asContact_def ownProp_def al_def str_def)
  ultimately show ?thesis
    using findContacts_array [of jsonParseTable alText "[?full]", OF p] by simp
qed

lemma readyState_guard:
  "resumeData readyState \<noteq> None" "university readyState \<noteq> []" "department readyState \<noteq> []"
  by (simp_all add: readyState_def str_def)

text \<open>
  Instances: the state at the end of the session \<open>staleSession\<close>, whose selection holds the
  address of Ada, a discovered contact; the discovery of Ada from a state with all inputs
  present; and the checkboxes of Ada and of Bob, whose \<^verbatim>\<open>email\<close> is \<^verbatim>\<open>null\<close>, on a state with
  nothing selected.
\<close>

theorem selection_only_contact_emails_witness:
  "selectionInvariant (run jsonParseTable toStrSample encodeSample staleSession)
   \<and> selectedContacts (run jsonParseTable toStrSample encodeSample staleSession)
       = {Primitive (JString (str ''ada@u.edu''))}
   \<and> contacts (run jsonParseTable toStrSample encodeSample staleSession) = [ada]
   \<and> email ada = Some (JString (str ''ada@u.edu''))
   \<and> selectedContacts (fst (handleFindContacts jsonParseTable (Inr adaText) readyState))
       = {Primitive (JString (str ''ada@u.edu''))}
   \<and> selectedContacts (step jsonParseTable toStrSample encodeSample
                           (selectState\<lparr>selectedContacts := {}\<rparr>) (ToggleContact 0))
       = {Primitive (JString (str ''ada@u.edu''))}
   \<and> selectedContacts (step jsonParseTable toStrSample encodeSample
                           (selectState\<lparr>selectedContacts := {}\<rparr>) (ToggleContact 1))
       = {}
   \<and> contactsToEmail selectState = [ada]"
proof -
  have r: "run jsonParseTable toStrSample encodeSample staleSession = staleState"
    by (simp add: staleState_def)
  have s: "selectedContacts staleState = {Primitive (JString (str ''ada@u.edu''))}"
    "contacts staleState = [ada]"
    by (simp_all add: staleState_eq)
  have e: "email ada = Some (JString (str ''ada@u.edu''))" "email bob = Some JNull"
    by (simp_all add: ada_def bob_def)
  have h: "resumeData readyState \<noteq> None \<and> university readyState \<noteq> [] \<and>
           department readyState \<noteq> [] \<and> findContacts jsonParseTable (Inr adaText) = Inr [ada]"
    by (simp add: readyState_guard findContacts_ada)
  have set_ada: "{k. \<exists>i<length [ada]. \<exists>v. email ([ada] ! i) = Some v \<and> truthy v \<and>
                   k = emailElement i ([ada] ! i)} = {Primitive (JString (str ''ada@u.edu''))}"
    by (auto simp: e emailElement_def str_def)
  have a: "selectionInvariant (run jsonParseTable toStrSample encodeSample staleSession)"
    using selection_only_contact_emails [of jsonParseTable toStrSample encodeSample staleSession] by blast
  have b: "selectedContacts (fst (handleFindContacts jsonParseTable (Inr adaText) readyState))
       = {k. \<exists>i<length [ada]. \<exists>v. email ([ada] ! i) = Some v \<and> truthy v \<and>
                   k = emailElement i ([ada] ! i)}"
    using selection_only_contact_emails [of jsonParseTable toStrSample encodeSample staleSession
        readyState "Inr adaText" "[ada]"] h by blast
  have t0: "selectedContacts (step jsonParseTable toStrSample encodeSample
                           (selectState\<lparr>selectedContacts := {}\<rparr>) (ToggleContact 0))
       = {Primitive (JString (str ''ada@u.edu''))}"
    by (simp add: selectState_def handleContactSelection_def hasEmail_def emailElement_def e str_def)
  have t1: "selectedContacts (step jsonParseTable toStrSample encodeSample
                           (selectState\<lparr>selectedContacts := {}\<rparr>) (ToggleContact 1))
       = {}"
    by (simp add: selectState_def hasEmail_def e)
  have b': "selectedContacts (fst (handleFindContacts jsonParseTable (Inr adaText) readyState))
       = {Primitive (JString (str ''ada@u.edu''))}"
    using b by (simp only: set_ada)
  show ?thesis
    unfolding r by (intro conjI a [unfolded r] s e(1) b' t0 t1 selectState_fields(5))
qed

text \<open>
  Claim C7 as stated fails in two clauses. The discovery of Ann, whose \<^verbatim>\<open>email\<close> is the empty
  string and so not \<^verbatim>\<open>null\<close>, leaves the selection empty: the set is not initialised to
  exactly the non-null emails. The discovery of Al, whose \<^verbatim>\<open>email\<close> is the number 5, puts
  that number into the set: the set does not hold email strings only.
\<close>

theorem selection_only_contact_emails_counterexample:
  "contacts (fst (handleFindContacts jsonParseTable (Inr annText) readyState)) = [ann]
   \<and> email ann = Some (JString [])
   \<and> selectedContacts (fst (handleFindContacts jsonParseTable (Inr annText) readyState)) = {}
   \<and> contacts (fst (handleFindContacts jsonParseTable (Inr alText) readyState)) = [al]
   \<and> selectedContacts (fst (handleFindContacts jsonParseTable (Inr alText) readyState))
       = {Primitive (JNumber (NumFinite 5))}"
proof -
  have t: "truthyEmails [ann] = []" "truthyEmails [al] = [Primitive (JNumber (NumFinite 5))]"
    by (simp_all add: truthyEmails_def hasEmail_def emailElement_def ann_def al_def
          enumerate_eq_zip upt_rec)
  have "fst (handleFindContacts jsonParseTable (Inr annText) readyState)
          = readyState\<lparr>error := None, contacts := [ann], selectedContacts := {},
                        currentStep := Select, isLoading := False\<rparr>"
    using readyState_guard by (auto simp: handleFindContacts_def findContacts_ann t)
  moreover have "fst (handleFindContacts jsonParseTable (Inr alText) readyState)
          = readyState\<lparr>error := None, contacts := [al],
                        selectedContacts := {Primitive (JNumber (NumFinite 5))},
                        currentStep := Select, isLoading := False\<rparr>"
    using readyState_guard by (auto simp: handleFindContacts_def findContacts_al t)
  moreover have "email ann = Some (JString [])"
    by (simp add: ann_def)
  ultimately show ?thesis
    by simp
qed

end
